theory Spec2Isabelle
  imports Complex_Main "HOL-Library.Word" "HOL-Library.Multiset"
    "HOL-Library.Code_Target_Numeral"
begin

section \<open>JavaScript values\<close>

text \<open>
  The records of the application are plain JavaScript objects that live in localStorage
  as JSON text. A property value is one of the JSON primitives; an object is a finite map
  from property names to values, and a property that is absent reads as \<open>undefined\<close>,
  which is \<open>None\<close> here. \<open>JSON.parse (JSON.stringify v)\<close> is the identity on such
  objects, so the model keeps the parsed objects in the store.

  The numbers of the date arithmetic (time values, days of the month, weekdays) are
  \<open>number\<close>: an integer, or \<open>None\<close> for \<open>NaN\<close>. A time value is assumed to stay
  inside the range of ECMAScript dates, where \<open>TimeClip\<close> changes nothing and the
  arithmetic of doubles is exact. The numbers that \<open>parseInt\<close> returns and that are
  summed are doubles, modelled below with their rounding and their infinities.

  A string is the list of the code units of the JavaScript string, each below 256.
\<close>

datatype jsval = JNull | JBool bool | JNum rat | JStr string

type_synonym obj = "string \<rightharpoonup> jsval"

type_synonym number = "int option"

definition num_add :: "number \<Rightarrow> number \<Rightarrow> number" where
  "num_add a b = (case a of None \<Rightarrow> None | Some x \<Rightarrow> (case b of None \<Rightarrow> None | Some y \<Rightarrow> Some (x + y)))"

definition num_sub :: "number \<Rightarrow> number \<Rightarrow> number" where
  "num_sub a b = (case a of None \<Rightarrow> None | Some x \<Rightarrow> (case b of None \<Rightarrow> None | Some y \<Rightarrow> Some (x - y)))"

text \<open>The integer part of a number, towards zero.\<close>

definition toInteger :: "rat \<Rightarrow> int" where
  "toInteger r = (if 0 \<le> r then \<lfloor>r\<rfloor> else \<lceil>r\<rceil>)"

subsection \<open>The runtime environment\<close>

text \<open>
  What the code takes from the device and the JavaScript runtime: the time zone, a
  fixed offset from UTC (local time minus UTC, in minutes; no daylight saving
  transitions), \<open>Date.parse\<close>, and the conversion of a number to a string
  (\<open>Number.prototype.toString\<close>).
\<close>

record env =
  tzOffset :: int
  dateParse :: "string \<Rightarrow> int option"
  numberToString :: "rat \<Rightarrow> string"

subsection \<open>Doubles with an integer value\<close>

text \<open>
  The values that \<open>parseInt\<close> returns and that \<open>calculateTotalCalories\<close> adds: \<open>NaN\<close>,
  the two infinities, and the doubles whose value is an integer (the two zeros are one
  value here: both are falsy and both add nothing). \<open>toDouble\<close> is the conversion of a
  mathematical integer to a Number: below \<open>2^53\<close> in magnitude it is exact, above it
  the integer is rounded to 53 significant bits, a tie going to the even neighbour, and
  from \<open>2^1024 - 2^970\<close> on it is an infinity. The sum of two such doubles is the
  rounded exact sum; an infinity absorbs every finite number, and the two infinities add
  to \<open>NaN\<close>.
\<close>

datatype double = NaN | Finite int | PosInfinity | NegInfinity

fun bitLength :: "nat \<Rightarrow> nat" where
  "bitLength n = (if n = 0 then 0 else Suc (bitLength (n div 2)))"

declare bitLength.simps [simp del]

definition toDouble :: "int \<Rightarrow> double" where
  "toDouble n =
     (let a = nat \<bar>n\<bar> in
      if a < 2 ^ 53 then Finite n
      else if 2 ^ 1024 - 2 ^ 970 \<le> a then (if n < 0 then NegInfinity else PosInfinity)
      else
        (let e = bitLength a - 53;
             q = a div 2 ^ e;
             r = a mod 2 ^ e;
             half = 2 ^ (e - 1);
             q' = (if half < r \<or> (r = half \<and> odd q) then q + 1 else q)
         in Finite ((if n < 0 then - 1 else 1) * int (q' * 2 ^ e))))"

fun double_add :: "double \<Rightarrow> double \<Rightarrow> double" where
  "double_add NaN y = NaN"
| "double_add x NaN = NaN"
| "double_add (Finite a) (Finite b) = toDouble (a + b)"
| "double_add (Finite a) PosInfinity = PosInfinity"
| "double_add (Finite a) NegInfinity = NegInfinity"
| "double_add PosInfinity (Finite b) = PosInfinity"
| "double_add NegInfinity (Finite b) = NegInfinity"
| "double_add PosInfinity PosInfinity = PosInfinity"
| "double_add NegInfinity NegInfinity = NegInfinity"
| "double_add PosInfinity NegInfinity = NaN"
| "double_add NegInfinity PosInfinity = NaN"

text \<open>\<open>x || 0\<close> on a number: \<open>NaN\<close> and the zeros are falsy, an infinity is not.\<close>

fun or_zero :: "double \<Rightarrow> double" where
  "or_zero NaN = Finite 0"
| "or_zero (Finite n) = (if n = 0 then Finite 0 else Finite n)"
| "or_zero PosInfinity = PosInfinity"
| "or_zero NegInfinity = NegInfinity"

subsection \<open>parseInt\<close>

text \<open>
  \<open>parseInt(value)\<close> with no radix. The value is converted to a string: \<open>undefined\<close>,
  \<open>null\<close>, \<open>true\<close> and \<open>false\<close> to their names, a number by the runtime's
  \<open>toString\<close>. Leading white space is dropped (among the code units below 256 the white
  space of ECMAScript is TAB, LF, VT, FF, CR, SP and the no-break space U+00A0), then a
  sign, then a \<open>0x\<close> prefix selects radix 16. The longest prefix of digits of the radix
  is read as an integer, which is converted to a Number with its sign; no digit at all
  gives \<open>NaN\<close>. (For more than 20 significant decimal digits ECMAScript lets an
  implementation read the later digits as 0; the model reads the exact value, which is
  within that latitude.)
\<close>

definition isWhiteSpace :: "char \<Rightarrow> bool" where
  "isWhiteSpace c = ((of_char c :: nat) \<in> {9, 10, 11, 12, 13, 32, 160})"

definition digitValue :: "char \<Rightarrow> nat option" where
  "digitValue c =
     (let n = (of_char c :: nat) in
      if 48 \<le> n \<and> n \<le> 57 then Some (n - 48)
      else if 97 \<le> n \<and> n \<le> 122 then Some (n - 87)
      else if 65 \<le> n \<and> n \<le> 90 then Some (n - 55)
      else None)"

definition isRadixDigit :: "nat \<Rightarrow> char \<Rightarrow> bool" where
  "isRadixDigit radix c = (case digitValue c of None \<Rightarrow> False | Some v \<Rightarrow> v < radix)"

definition digitsValue :: "nat \<Rightarrow> string \<Rightarrow> nat" where
  "digitsValue radix z = foldl (\<lambda>acc c. acc * radix + the (digitValue c)) 0 z"

definition parseIntString :: "string \<Rightarrow> double" where
  "parseIntString s =
     (let s1 = dropWhile isWhiteSpace s;
          sign = (if s1 \<noteq> [] \<and> hd s1 = CHR ''-'' then - 1 else (1::int));
          s2 = (if s1 \<noteq> [] \<and> (hd s1 = CHR ''-'' \<or> hd s1 = CHR ''+'') then tl s1 else s1);
          hex = (2 \<le> length s2 \<and> s2 ! 0 = CHR ''0'' \<and> (s2 ! 1 = CHR ''x'' \<or> s2 ! 1 = CHR ''X''));
          radix = (if hex then 16 else 10);
          s3 = (if hex then drop 2 s2 else s2);
          z = takeWhile (isRadixDigit radix) s3
      in if z = [] then NaN else toDouble (sign * int (digitsValue radix z)))"

fun parseInt :: "env \<Rightarrow> jsval option \<Rightarrow> double" where
  "parseInt e None = parseIntString ''undefined''"
| "parseInt e (Some JNull) = parseIntString ''null''"
| "parseInt e (Some (JBool b)) = parseIntString (if b then ''true'' else ''false'')"
| "parseInt e (Some (JNum r)) = parseIntString (numberToString e r)"
| "parseInt e (Some (JStr s)) = parseIntString s"

section \<open>Dates\<close>

text \<open>
  A \<open>Date\<close> object holds a time value: milliseconds since the epoch, or \<open>NaN\<close> for an
  invalid date. The calendar functions follow the definitions of the ECMAScript
  specification (Day, DayFromYear, YearFromTime, MonthFromTime, DateFromTime, WeekDay,
  MakeDay), on day numbers. The time zone and \<open>Date.parse\<close> are those of the
  environment.
\<close>

definition msPerDay :: int where
  "msPerDay = 86400000"

definition Day :: "int \<Rightarrow> int" where
  "Day t = t div msPerDay"

definition TimeWithinDay :: "int \<Rightarrow> int" where
  "TimeWithinDay t = t mod msPerDay"

definition DayFromYear :: "int \<Rightarrow> int" where
  "DayFromYear y =
     365 * (y - 1970) + (y - 1969) div 4 - (y - 1901) div 100 + (y - 1601) div 400"

definition InLeapYear :: "int \<Rightarrow> int" where
  "InLeapYear y =
     (if y mod 4 \<noteq> 0 then 0 else if y mod 100 \<noteq> 0 then 1 else if y mod 400 \<noteq> 0 then 0 else 1)"

text \<open>
  The year of a day number: the largest \<open>y\<close> with \<open>DayFromYear y \<le> d\<close>, found from the
  mean length of a year and one step of correction.
\<close>

definition YearFromDay :: "int \<Rightarrow> int" where
  "YearFromDay d =
     (let y = 1970 + (400 * d) div 146097 in
      if DayFromYear (y + 1) \<le> d then y + 1
      else if d < DayFromYear y then y - 1
      else y)"

definition DayWithinYear :: "int \<Rightarrow> int" where
  "DayWithinYear d = d - DayFromYear (YearFromDay d)"

text \<open>The number of days of the year before month \<open>m\<close> (0 is January), with the leap day.\<close>

definition monthOffset :: "int \<Rightarrow> int \<Rightarrow> int" where
  "monthOffset m leap =
     (if m = 0 then 0 else if m = 1 then 31 else if m = 2 then 59 + leap
      else if m = 3 then 90 + leap else if m = 4 then 120 + leap
      else if m = 5 then 151 + leap else if m = 6 then 181 + leap
      else if m = 7 then 212 + leap else if m = 8 then 243 + leap
      else if m = 9 then 273 + leap else if m = 10 then 304 + leap
      else 334 + leap)"

definition MonthFromDay :: "int \<Rightarrow> int" where
  "MonthFromDay d =
     (let w = DayWithinYear d; leap = InLeapYear (YearFromDay d) in
      if w < 31 then 0 else if w < 59 + leap then 1 else if w < 90 + leap then 2
      else if w < 120 + leap then 3 else if w < 151 + leap then 4
      else if w < 181 + leap then 5 else if w < 212 + leap then 6
      else if w < 243 + leap then 7 else if w < 273 + leap then 8
      else if w < 304 + leap then 9 else if w < 334 + leap then 10
      else 11)"

definition DateFromDay :: "int \<Rightarrow> int" where
  "DateFromDay d =
     DayWithinYear d - monthOffset (MonthFromDay d) (InLeapYear (YearFromDay d)) + 1"

definition WeekDay :: "int \<Rightarrow> int" where
  "WeekDay d = (d + 4) mod 7"

definition MakeDay :: "int \<Rightarrow> int \<Rightarrow> int \<Rightarrow> int" where
  "MakeDay year month dt =
     (let ym = year + month div 12; mn = month mod 12 in
      DayFromYear ym + monthOffset mn (InLeapYear ym) + dt - 1)"

definition LocalTime :: "env \<Rightarrow> int \<Rightarrow> int" where
  "LocalTime e t = t + tzOffset e * 60000"

definition UTC :: "env \<Rightarrow> int \<Rightarrow> int" where
  "UTC e t = t - tzOffset e * 60000"

type_synonym date = "int option"

text \<open>
  The argument of \<open>new Date(x)\<close>: another \<open>Date\<close>, which is copied, or a property value.
  \<open>undefined\<close> gives an invalid date, \<open>null\<close> and the booleans are converted to the
  numbers 0 and 1, a number is cut to an integer, and a string is parsed.
\<close>

datatype datearg = DateObj date | DateVal "jsval option"

fun newDate :: "env \<Rightarrow> datearg \<Rightarrow> date" where
  "newDate e (DateObj d) = d"
| "newDate e (DateVal None) = None"
| "newDate e (DateVal (Some JNull)) = Some 0"
| "newDate e (DateVal (Some (JBool b))) = Some (if b then 1 else 0)"
| "newDate e (DateVal (Some (JNum r))) = Some (toInteger r)"
| "newDate e (DateVal (Some (JStr s))) = dateParse e s"

definition getDay :: "env \<Rightarrow> date \<Rightarrow> number" where
  "getDay e d = map_option (\<lambda>t. WeekDay (Day (LocalTime e t))) d"

definition getDate :: "env \<Rightarrow> date \<Rightarrow> number" where
  "getDate e d = map_option (\<lambda>t. DateFromDay (Day (LocalTime e t))) d"

text \<open>
  \<open>d.setDate(dt)\<close> and \<open>d.setHours(h, m, s, ms)\<close> return the new time value of \<open>d\<close>;
  the model returns it as the new date.
\<close>

definition setDate :: "env \<Rightarrow> date \<Rightarrow> number \<Rightarrow> date" where
  "setDate e d dt =
     (case d of None \<Rightarrow> None | Some t \<Rightarrow>
        (case dt of None \<Rightarrow> None | Some n \<Rightarrow>
           (let lt = LocalTime e t; day = Day lt in
            Some (UTC e (MakeDay (YearFromDay day) (MonthFromDay day) n * msPerDay
                         + TimeWithinDay lt)))))"

definition setHours :: "env \<Rightarrow> date \<Rightarrow> int \<Rightarrow> int \<Rightarrow> int \<Rightarrow> int \<Rightarrow> date" where
  "setHours e d h m s ms =
     (case d of None \<Rightarrow> None | Some t \<Rightarrow>
        Some (UTC e (Day (LocalTime e t) * msPerDay + (h * 3600000 + m * 60000 + s * 1000 + ms))))"

text \<open>The comparisons of two dates, by time value; a comparison with \<open>NaN\<close> is false.\<close>

definition date_ge :: "date \<Rightarrow> date \<Rightarrow> bool" where
  "date_ge a b = (case a of None \<Rightarrow> False | Some x \<Rightarrow> (case b of None \<Rightarrow> False | Some y \<Rightarrow> y \<le> x))"

definition date_le :: "date \<Rightarrow> date \<Rightarrow> bool" where
  "date_le a b = (case a of None \<Rightarrow> False | Some x \<Rightarrow> (case b of None \<Rightarrow> False | Some y \<Rightarrow> x \<le> y))"

section \<open>Utils\<close>

definition getWeekStart :: "env \<Rightarrow> datearg \<Rightarrow> date" where
  "getWeekStart e date =
     (let d = newDate e date;
          day = getDay e d;
          diff = num_add (num_sub (getDate e d) day) (Some (if day = Some 0 then - 6 else 1))
      in newDate e (DateObj (setDate e d diff)))"

definition getWeekEnd :: "env \<Rightarrow> datearg \<Rightarrow> date" where
  "getWeekEnd e date =
     (let start = getWeekStart e date;
          end' = newDate e (DateObj start)
      in setDate e end' (num_add (getDate e end') (Some 6)))"

definition addDays :: "env \<Rightarrow> datearg \<Rightarrow> int \<Rightarrow> date" where
  "addDays e date days =
     (let d = newDate e date in setDate e d (num_add (getDate e d) (Some days)))"

definition calculateTotalCalories :: "env \<Rightarrow> obj list \<Rightarrow> double" where
  "calculateTotalCalories e entries =
     foldl (\<lambda>sum x. double_add sum (or_zero (parseInt e (x ''calories'')))) (Finite 0) entries"


section \<open>Printing numbers and dates\<close>

definition digitChar :: "nat \<Rightarrow> char" where
  "digitChar n = ''0123456789abcdefghijklmnopqrstuvwxyz'' ! n"

text \<open>\<open>n.toString(radix)\<close> for a natural number: digits \<open>0-9a-z\<close>, most significant first.\<close>

fun natToString :: "nat \<Rightarrow> nat \<Rightarrow> string" where
  "natToString radix n =
     (if n < radix \<or> radix < 2 then [digitChar n]
      else natToString radix (n div radix) @ [digitChar (n mod radix)])"

declare natToString.simps [simp del]

definition intToString :: "int \<Rightarrow> string" where
  "intToString i = (if i < 0 then ''-'' @ natToString 10 (nat (- i)) else natToString 10 (nat i))"

definition padZero :: "nat \<Rightarrow> int \<Rightarrow> string" where
  "padZero w i = (let s = natToString 10 (nat i) in replicate (w - length s) CHR ''0'' @ s)"

text \<open>
  \<open>toISOString\<close> of a valid time value: \<open>YYYY-MM-DDTHH:mm:ss.sssZ\<close> in UTC, the year
  with a sign and six digits outside 0..9999.
\<close>

definition toISOString :: "int \<Rightarrow> string" where
  "toISOString t =
     (let day = Day t; tm = TimeWithinDay t; y = YearFromDay day in
      (if 0 \<le> y \<and> y \<le> 9999 then padZero 4 y
       else (if y < 0 then ''-'' else ''+'') @ padZero 6 \<bar>y\<bar>)
      @ ''-'' @ padZero 2 (MonthFromDay day + 1)
      @ ''-'' @ padZero 2 (DateFromDay day)
      @ ''T'' @ padZero 2 (tm div 3600000)
      @ '':'' @ padZero 2 (tm div 60000 mod 60)
      @ '':'' @ padZero 2 (tm div 1000 mod 60)
      @ ''.'' @ padZero 3 (tm mod 1000) @ ''Z'')"

definition dayNames :: "string list" where
  "dayNames = [''Sun'', ''Mon'', ''Tue'', ''Wed'', ''Thu'', ''Fri'', ''Sat'']"

definition monthNames :: "string list" where
  "monthNames = [''Jan'', ''Feb'', ''Mar'', ''Apr'', ''May'', ''Jun'',
                 ''Jul'', ''Aug'', ''Sep'', ''Oct'', ''Nov'', ''Dec'']"

text \<open>
  \<open>toDateString\<close>: the weekday, month, day of the month and year of the date on the
  device's calendar, as in \<open>Wed Jan 10 2024\<close>; an invalid date prints as
  \<open>Invalid Date\<close>.
\<close>

definition toDateString :: "env \<Rightarrow> date \<Rightarrow> string" where
  "toDateString e d =
     (case d of None \<Rightarrow> ''Invalid Date'' | Some t \<Rightarrow>
        (let day = Day (LocalTime e t); y = YearFromDay day in
         dayNames ! nat (WeekDay day) @ '' '' @ monthNames ! nat (MonthFromDay day)
         @ '' '' @ padZero 2 (DateFromDay day)
         @ '' '' @ (if y < 0 then ''-'' else []) @ padZero 4 \<bar>y\<bar>))"

section \<open>Arrays\<close>

text \<open>\<open>findIndex\<close> returns the first index whose element satisfies the predicate; \<open>-1\<close> is \<open>None\<close>.\<close>

fun findIndex :: "('a \<Rightarrow> bool) \<Rightarrow> 'a list \<Rightarrow> nat option" where
  "findIndex p [] = None"
| "findIndex p (x # xs) = (if p x then Some 0 else map_option Suc (findIndex p xs))"

text \<open>
  \<open>Array.prototype.sort\<close> with a comparator. The sort is stable, and a comparator result
  of \<open>NaN\<close> counts as 0. With a consistent comparator the result is the one stable
  sorted arrangement; it is computed here by insertion. (For a comparator that is not
  consistent ECMAScript leaves the order to the implementation.)
\<close>

definition positive :: "number \<Rightarrow> bool" where
  "positive v = (case v of None \<Rightarrow> False | Some n \<Rightarrow> 0 < n)"

fun insertBy :: "('a \<Rightarrow> 'a \<Rightarrow> number) \<Rightarrow> 'a \<Rightarrow> 'a list \<Rightarrow> 'a list" where
  "insertBy cmp x [] = [x]"
| "insertBy cmp x (y # ys) = (if positive (cmp x y) then y # insertBy cmp x ys else x # y # ys)"

definition jsSort :: "('a \<Rightarrow> 'a \<Rightarrow> number) \<Rightarrow> 'a list \<Rightarrow> 'a list" where
  "jsSort cmp xs = foldr (insertBy cmp) xs []"

section \<open>Storage\<close>

text \<open>
  localStorage holds one item per key of the application: the three collections, the
  settings object and the hash of the PIN. A key that was never written is \<open>None\<close>.
  Reading an item parses it and writing one serialises it; \<open>setItem\<close> is taken to
  succeed (a full quota is not modelled), so \<open>Storage.set\<close> stores the value.
\<close>

record localStorage =
  FOOD_ENTRIES :: "obj list option"
  WEIGHT_ENTRIES :: "obj list option"
  RECIPES :: "obj list option"
  SETTINGS :: "obj option"
  PIN_HASH :: "string option"

definition emptyStorage :: localStorage where
  "emptyStorage = \<lparr> FOOD_ENTRIES = None, WEIGHT_ENTRIES = None, RECIPES = None,
                     SETTINGS = None, PIN_HASH = None \<rparr>"

subsection \<open>Food entries\<close>

definition getFoodEntries :: "localStorage \<Rightarrow> obj list" where
  "getFoodEntries ls = (case FOOD_ENTRIES ls of None \<Rightarrow> [] | Some entries \<Rightarrow> entries)"

text \<open>
  The operations that write take the store and return their result with the new store.
  \<open>{...a, ...b}\<close> is \<open>a ++ b\<close>. An \<open>id\<close> is compared with \<open>===\<close>: equal values of the
  same type.
\<close>

definition updateFoodEntry :: "jsval \<Rightarrow> obj \<Rightarrow> localStorage \<Rightarrow> obj option \<times> localStorage" where
  "updateFoodEntry id' updates ls =
     (let entries = getFoodEntries ls in
      case findIndex (\<lambda>e. e ''id'' = Some id') entries of
        Some index \<Rightarrow>
          (let entries' = entries[index := (entries ! index) ++ updates] in
           (Some (entries' ! index), ls\<lparr>FOOD_ENTRIES := Some entries'\<rparr>))
      | None \<Rightarrow> (None, ls))"

definition deleteFoodEntry :: "jsval \<Rightarrow> localStorage \<Rightarrow> bool \<times> localStorage" where
  "deleteFoodEntry id' ls =
     (let entries = getFoodEntries ls;
          filtered = filter (\<lambda>e. e ''id'' \<noteq> Some id') entries
      in (True, ls\<lparr>FOOD_ENTRIES := Some filtered\<rparr>))"

definition getFoodEntriesByDateRange ::
  "env \<Rightarrow> datearg \<Rightarrow> datearg \<Rightarrow> localStorage \<Rightarrow> obj list" where
  "getFoodEntriesByDateRange e startDate endDate ls =
     (let entries = getFoodEntries ls;
          start = setHours e (newDate e startDate) 0 0 0 0;
          end' = setHours e (newDate e endDate) 23 59 59 999
      in filter (\<lambda>x. let entryDate = newDate e (DateVal (x ''date''))
                      in date_ge entryDate start \<and> date_le entryDate end') entries)"

subsection \<open>Weight entries\<close>

definition getWeightEntries :: "localStorage \<Rightarrow> obj list" where
  "getWeightEntries ls = (case WEIGHT_ENTRIES ls of None \<Rightarrow> [] | Some entries \<Rightarrow> entries)"

text \<open>
  \<open>saveWeightEntry\<close> reads the clock for the \<open>id\<close> and for \<open>createdAt\<close>; \<open>now\<close> is that
  reading, in milliseconds.
\<close>

definition dateOf :: "env \<Rightarrow> obj \<Rightarrow> date" where
  "dateOf e x = newDate e (DateVal (x ''date''))"

definition saveWeightEntry :: "env \<Rightarrow> int \<Rightarrow> obj \<Rightarrow> localStorage \<Rightarrow> obj \<times> localStorage" where
  "saveWeightEntry e now entry0 ls =
     (let entries = getWeightEntries ls;
          entry1 = entry0(''id'' \<mapsto> JStr (intToString now));
          entry = entry1(''createdAt'' \<mapsto> JStr (toISOString now));
          existingIndex =
            findIndex (\<lambda>x. toDateString e (dateOf e x) = toDateString e (dateOf e entry)) entries;
          entries' =
            (case existingIndex of
               Some i \<Rightarrow> entries[i := (entries ! i) ++ entry]
             | None \<Rightarrow> entries @ [entry]);
          sorted' = jsSort (\<lambda>a b. num_sub (dateOf e a) (dateOf e b)) entries'
      in (entry, ls\<lparr>WEIGHT_ENTRIES := Some sorted'\<rparr>))"

definition deleteWeightEntry :: "jsval \<Rightarrow> localStorage \<Rightarrow> bool \<times> localStorage" where
  "deleteWeightEntry id' ls =
     (let entries = getWeightEntries ls;
          filtered = filter (\<lambda>e. e ''id'' \<noteq> Some id') entries
      in (True, ls\<lparr>WEIGHT_ENTRIES := Some filtered\<rparr>))"

definition getLatestWeight :: "localStorage \<Rightarrow> obj option" where
  "getLatestWeight ls =
     (let entries = getWeightEntries ls in
      if length entries = 0 then None else Some (entries ! (length entries - 1)))"

subsection \<open>Recipes\<close>

definition getRecipes :: "localStorage \<Rightarrow> obj list" where
  "getRecipes ls = (case RECIPES ls of None \<Rightarrow> [] | Some recipes \<Rightarrow> recipes)"

definition updateRecipe :: "jsval \<Rightarrow> obj \<Rightarrow> localStorage \<Rightarrow> obj option \<times> localStorage" where
  "updateRecipe id' updates ls =
     (let recipes = getRecipes ls in
      case findIndex (\<lambda>r. r ''id'' = Some id') recipes of
        Some index \<Rightarrow>
          (let recipes' = recipes[index := (recipes ! index) ++ updates] in
           (Some (recipes' ! index), ls\<lparr>RECIPES := Some recipes'\<rparr>))
      | None \<Rightarrow> (None, ls))"

definition deleteRecipe :: "jsval \<Rightarrow> localStorage \<Rightarrow> bool \<times> localStorage" where
  "deleteRecipe id' ls =
     (let recipes = getRecipes ls;
          filtered = filter (\<lambda>r. r ''id'' \<noteq> Some id') recipes
      in (True, ls\<lparr>RECIPES := Some filtered\<rparr>))"

subsection \<open>Settings\<close>

definition getSettings :: "localStorage \<Rightarrow> obj" where
  "getSettings ls =
     (case SETTINGS ls of
        None \<Rightarrow> [''calorieGoal'' \<mapsto> JNum 2000, ''weightUnit'' \<mapsto> JStr ''kg'']
      | Some s \<Rightarrow> s)"

definition saveSettings :: "obj \<Rightarrow> localStorage \<Rightarrow> localStorage" where
  "saveSettings settings ls =
     (let current = getSettings ls in ls\<lparr>SETTINGS := Some (current ++ settings)\<rparr>)"

section \<open>Auth\<close>

text \<open>
  A PIN is a JavaScript string: a list of UTF-16 code units, which \<open>charCodeAt\<close> reads
  and \<open>length\<close> counts. The hash is kept in 32 bits: \<open>hash & hash\<close> cuts the sum back to
  a signed 32-bit integer after every character.
\<close>

type_synonym jsstring = "16 word list"

definition hashPin :: "jsstring \<Rightarrow> string" where
  "hashPin pin =
     (let hash = foldl (\<lambda>hash char. (push_bit 5 hash - hash) + ucast char) (0 :: 32 word) pin
      in ''cf_'' @ natToString 36 (nat \<bar>sint hash\<bar>) @ ''_'' @ natToString 10 (length pin))"

definition setPin :: "jsstring \<Rightarrow> localStorage \<Rightarrow> obj \<times> localStorage" where
  "setPin pin ls =
     (if length pin < 4
      then ([''success'' \<mapsto> JBool False, ''error'' \<mapsto> JStr ''PIN must be at least 4 characters''], ls)
      else (let hash = hashPin pin in
            ([''success'' \<mapsto> JBool True], ls\<lparr>PIN_HASH := Some hash\<rparr>)))"

section \<open>Analytics\<close>

text \<open>
  The monthly series of \<open>updateAnalytics\<close>: the loop runs \<open>w\<close> from 3 down to 0 and
  pushes one total per round. \<open>now\<close> is the reading of the clock.
\<close>

definition monthData :: "env \<Rightarrow> int \<Rightarrow> localStorage \<Rightarrow> double list" where
  "monthData e now ls =
     map (\<lambda>w. let wStart = addDays e (DateObj (Some now)) (- 7 * (w + 1));
                  wEnd = addDays e (DateObj wStart) 6;
                  wEntries = getFoodEntriesByDateRange e (DateObj wStart) (DateObj wEnd) ls
              in calculateTotalCalories e wEntries)
         [3, 2, 1, 0]"

section \<open>Notions used in the statements\<close>

text \<open>
  What one entry adds to the total: the number \<open>parseInt\<close> reads in its \<open>calories\<close>,
  and 0 when it reads none. The number is finite unless it is an infinity; the integer
  value of a finite number is \<open>finiteValue\<close>.
\<close>

definition caloriesOf :: "env \<Rightarrow> obj \<Rightarrow> double" where
  "caloriesOf e x = or_zero (parseInt e (x ''calories''))"

fun isFinite :: "double \<Rightarrow> bool" where
  "isFinite (Finite n) = True"
| "isFinite v = False"

fun finiteValue :: "double \<Rightarrow> int" where
  "finiteValue (Finite n) = n"
| "finiteValue v = 0"

text \<open>
  The \<open>calories\<close> of an entry is short when the string that \<open>parseInt\<close> reads has at
  most 255 characters. A number prints in fewer than 30.
\<close>

definition shortCalories :: "env \<Rightarrow> obj \<Rightarrow> bool" where
  "shortCalories e x =
     (case x ''calories'' of
        Some (JStr s) \<Rightarrow> length s \<le> 255
      | Some (JNum r) \<Rightarrow> length (numberToString e r) \<le> 255
      | _ \<Rightarrow> True)"

text \<open>The weekday (0 is Sunday) of a time value on the device's calendar.\<close>

definition weekdayOf :: "env \<Rightarrow> int \<Rightarrow> int" where
  "weekdayOf e t = WeekDay (Day (LocalTime e t))"

text \<open>
  The first and the last millisecond of the local calendar day of a time value:
  00:00:00.000 and 23:59:59.999 local time.
\<close>

definition localMidnight :: "env \<Rightarrow> int \<Rightarrow> int" where
  "localMidnight e t = UTC e (Day (LocalTime e t) * msPerDay)"

definition localDayEnd :: "env \<Rightarrow> int \<Rightarrow> int" where
  "localDayEnd e t = localMidnight e t + 86399999"

text \<open>Whether an entry's date lies in the range \<open>[lo, hi]\<close>; an invalid date lies in none.\<close>

definition datedWithin :: "env \<Rightarrow> int \<Rightarrow> int \<Rightarrow> obj \<Rightarrow> bool" where
  "datedWithin e lo hi x = (case dateOf e x of None \<Rightarrow> False | Some t \<Rightarrow> lo \<le> t \<and> t \<le> hi)"

text \<open>
  The calendar date of a weight entry, as \<open>saveWeightEntry\<close> compares it: the
  \<open>toDateString\<close> of its date. \<open>localDay\<close> is the number of the local calendar day
  of the date (days since 1 January 1970), and \<open>None\<close> for an invalid date; two
  entries have the same \<open>dayKey\<close> exactly when they have the same \<open>localDay\<close>.
\<close>

definition dayKey :: "env \<Rightarrow> obj \<Rightarrow> string" where
  "dayKey e x = toDateString e (dateOf e x)"

definition localDay :: "env \<Rightarrow> obj \<Rightarrow> int option" where
  "localDay e x = map_option (\<lambda>t. Day (LocalTime e t)) (dateOf e x)"

text \<open>
  The parts of \<open>toDateString\<close> for a valid date: the year with its sign, and the
  whole string as a function of the local day number.
\<close>

definition yearString :: "int \<Rightarrow> string" where
  "yearString y = (if y < 0 then ''-'' else []) @ padZero 4 \<bar>y\<bar>"

definition dateString :: "int \<Rightarrow> string" where
  "dateString day =
     dayNames ! nat (WeekDay day) @ CHR '' '' # monthNames ! nat (MonthFromDay day)
     @ CHR '' '' # padZero 2 (DateFromDay day) @ CHR '' '' # yearString (YearFromDay day)"

text \<open>The collection that \<open>saveWeightEntry\<close> sorts: the entry merged into the one of its day, or pushed.\<close>

definition upsert :: "env \<Rightarrow> obj \<Rightarrow> obj list \<Rightarrow> obj list" where
  "upsert e entry entries =
     (case findIndex (\<lambda>x. dayKey e x = dayKey e entry) entries of
        Some i \<Rightarrow> entries[i := (entries ! i) ++ entry]
      | None \<Rightarrow> entries @ [entry])"

text \<open>A write to the weight collection, with the reading of the clock for a save.\<close>

datatype weightWrite = SaveWeight int obj | DeleteWeight jsval

fun applyWrite :: "env \<Rightarrow> localStorage \<Rightarrow> weightWrite \<Rightarrow> localStorage" where
  "applyWrite e ls (SaveWeight now entry) = snd (saveWeightEntry e now entry ls)"
| "applyWrite e ls (DeleteWeight id') = snd (deleteWeightEntry id' ls)"

definition applyWrites :: "env \<Rightarrow> weightWrite list \<Rightarrow> localStorage \<Rightarrow> localStorage" where
  "applyWrites e ws ls = foldl (applyWrite e) ls ws"

text \<open>A save is well formed when the date of its entry is a valid date.\<close>

fun validWrite :: "env \<Rightarrow> weightWrite \<Rightarrow> bool" where
  "validWrite e (SaveWeight now entry) = (dateOf e entry \<noteq> None)"
| "validWrite e (DeleteWeight id') = True"

text \<open>
  Non-decreasing by date: every entry is \<open><=\<close> every later one, by time value. All
  entries have a valid date when \<open>validDates\<close> holds.
\<close>

definition sortedByDate :: "env \<Rightarrow> obj list \<Rightarrow> bool" where
  "sortedByDate e xs = sorted_wrt (\<lambda>a b. date_le (dateOf e a) (dateOf e b)) xs"

definition validDates :: "env \<Rightarrow> obj list \<Rightarrow> bool" where
  "validDates e xs = list_all (\<lambda>x. dateOf e x \<noteq> None) xs"

text \<open>The weight collection of a store has valid dates and is in date order.\<close>

definition weightsOrdered :: "env \<Rightarrow> localStorage \<Rightarrow> bool" where
  "weightsOrdered e ls =
     (validDates e (getWeightEntries ls) \<and> sortedByDate e (getWeightEntries ls))"

section \<open>A concrete environment\<close>

text \<open>
  For the worked examples: a device on UTC whose \<open>Date.parse\<close> reads the date-only form
  \<open>YYYY-MM-DD\<close> as midnight UTC of that day, as ECMAScript prescribes, and takes every
  other string for an invalid date. Its numbers print in plain decimal notation: the
  integer part, and after a point the digits of the fraction (at most 20). That is what
  ECMAScript prints for the numbers of the examples, which are integers below
  \<open>10^21\<close> and numbers with a short decimal fraction.
\<close>

fun fractionDigits :: "nat \<Rightarrow> rat \<Rightarrow> string" where
  "fractionDigits 0 f = []"
| "fractionDigits (Suc k) f =
     (if f = 0 then []
      else digitChar (nat \<lfloor>10 * f\<rfloor>) # fractionDigits k (10 * f - of_int \<lfloor>10 * f\<rfloor>))"

definition plainNumberToString :: "rat \<Rightarrow> string" where
  "plainNumberToString r =
     (let a = \<bar>r\<bar>; ip = \<lfloor>a\<rfloor> in
      (if r < 0 then ''-'' else []) @ natToString 10 (nat ip)
      @ (if a = of_int ip then [] else ''.'' @ fractionDigits 20 (a - of_int ip)))"

definition DaysInMonth :: "int \<Rightarrow> int \<Rightarrow> int" where
  "DaysInMonth y m =
     (if m = 11 then 31 else monthOffset (m + 1) (InLeapYear y) - monthOffset m (InLeapYear y))"

definition isoDateParse :: "string \<Rightarrow> int option" where
  "isoDateParse s =
     (if length s = 10 \<and> s ! 4 = CHR ''-'' \<and> s ! 7 = CHR ''-''
         \<and> list_all (isRadixDigit 10) (take 4 s @ take 2 (drop 5 s) @ drop 8 s)
      then
        (let y = int (digitsValue 10 (take 4 s));
             m = int (digitsValue 10 (take 2 (drop 5 s)));
             d = int (digitsValue 10 (drop 8 s))
         in if 1 \<le> m \<and> m \<le> 12 \<and> 1 \<le> d \<and> d \<le> DaysInMonth y (m - 1)
            then Some (MakeDay y (m - 1) d * msPerDay) else None)
      else None)"

definition utcEnv :: env where
  "utcEnv = \<lparr> tzOffset = 0, dateParse = isoDateParse, numberToString = plainNumberToString \<rparr>"

text \<open>A store with two food entries, for the worked examples.\<close>

definition exampleFoods :: "obj list" where
  "exampleFoods =
     [[''id'' \<mapsto> JStr ''1'', ''name'' \<mapsto> JStr ''Egg'', ''calories'' \<mapsto> JNum 70,
       ''date'' \<mapsto> JStr ''2024-01-10''],
      [''id'' \<mapsto> JStr ''2'', ''name'' \<mapsto> JStr ''Toast'', ''calories'' \<mapsto> JNum 120,
       ''date'' \<mapsto> JStr ''2024-01-10'']]"

definition exampleStore :: localStorage where
  "exampleStore = emptyStorage\<lparr>FOOD_ENTRIES := Some exampleFoods\<rparr>"

text \<open>A store with two recipes.\<close>

definition exampleRecipes :: "obj list" where
  "exampleRecipes =
     [[''id'' \<mapsto> JStr ''11'', ''name'' \<mapsto> JStr ''Soup'', ''calories'' \<mapsto> JStr ''250'',
       ''image'' \<mapsto> JNull],
      [''id'' \<mapsto> JStr ''12'', ''name'' \<mapsto> JStr ''Salad'', ''calories'' \<mapsto> JStr ''180'',
       ''image'' \<mapsto> JNull]]"

definition recipeStore :: localStorage where
  "recipeStore = emptyStorage\<lparr>RECIPES := Some exampleRecipes\<rparr>"

text \<open>
  Two entries whose calories are the digit 9 written 400 times, the second with a minus
  sign.
\<close>

definition hugeEntries :: "obj list" where
  "hugeEntries =
     [[''name'' \<mapsto> JStr ''a'', ''calories'' \<mapsto> JStr (replicate 400 CHR ''9'')],
      [''name'' \<mapsto> JStr ''b'', ''calories'' \<mapsto> JStr (CHR ''-'' # replicate 400 CHR ''9'')]]"

text \<open>Food entries on four days of January 2024, and one entry on 10 January alone.\<close>

definition rangeStore :: localStorage where
  "rangeStore = emptyStorage\<lparr>FOOD_ENTRIES :=
     Some [[''name'' \<mapsto> JStr ''a'', ''calories'' \<mapsto> JNum 100, ''date'' \<mapsto> JStr ''2024-01-09''],
           [''name'' \<mapsto> JStr ''b'', ''calories'' \<mapsto> JNum 200, ''date'' \<mapsto> JStr ''2024-01-10''],
           [''name'' \<mapsto> JStr ''c'', ''calories'' \<mapsto> JNum 300, ''date'' \<mapsto> JStr ''2024-01-12''],
           [''name'' \<mapsto> JStr ''d'', ''calories'' \<mapsto> JNum 400, ''date'' \<mapsto> JStr ''2024-01-13'']]\<rparr>"

definition todayStore :: localStorage where
  "todayStore = emptyStorage\<lparr>FOOD_ENTRIES :=
     Some [[''id'' \<mapsto> JStr ''1704880000000'', ''name'' \<mapsto> JStr ''Lunch'',
            ''calories'' \<mapsto> JNum 500, ''date'' \<mapsto> JStr ''2024-01-10'']]\<rparr>"

text \<open>Two saves, for 2 January and then 1 January 2024.\<close>

definition weightStore :: localStorage where
  "weightStore = applyWrites utcEnv
     [SaveWeight 1704186000000 [''date'' \<mapsto> JStr ''2024-01-02'', ''weight'' \<mapsto> JNum 71],
      SaveWeight 1704190000000 [''date'' \<mapsto> JStr ''2024-01-01'', ''weight'' \<mapsto> JNum 70]]
     emptyStorage"

section \<open>The calendar\<close>

lemma MonthFromDay_range: "0 \<le> MonthFromDay d \<and> MonthFromDay d \<le> 11"
  by (simp add: MonthFromDay_def Let_def)

lemma MakeDay_DateFromDay:
  "MakeDay (YearFromDay d) (MonthFromDay d) (DateFromDay d + k) = d + k"
proof -
  have r: "0 \<le> MonthFromDay d" "MonthFromDay d \<le> 11"
    using MonthFromDay_range [of d] by simp_all
  then have "MonthFromDay d div 12 = 0" "MonthFromDay d mod 12 = MonthFromDay d"
    by simp_all
  then show ?thesis
    by (simp add: MakeDay_def DateFromDay_def DayWithinYear_def)
qed

lemma setDate_getDate:
  "setDate e (Some t) (num_add (getDate e (Some t)) (Some k)) = Some (t + k * msPerDay)"
proof -
  have "Day (LocalTime e t) * msPerDay + TimeWithinDay (LocalTime e t) = LocalTime e t"
    by (simp add: Day_def TimeWithinDay_def)
  then have "(Day (LocalTime e t) + k) * msPerDay + TimeWithinDay (LocalTime e t)
             = LocalTime e t + k * msPerDay"
    by (simp add: algebra_simps)
  then show ?thesis
    by (simp add: setDate_def getDate_def num_add_def MakeDay_DateFromDay Let_def
        UTC_def LocalTime_def)
qed

lemma addDays_valid: "addDays e (DateObj (Some t)) k = Some (t + k * msPerDay)"
  by (simp add: addDays_def setDate_getDate)

lemma WeekDay_shift: "WeekDay (Day (t + k * msPerDay)) = (WeekDay (Day t) + k) mod 7"
proof -
  have "(t + k * msPerDay) div msPerDay = t div msPerDay + k"
    by (simp add: msPerDay_def)
  then show ?thesis
    by (simp add: WeekDay_def Day_def mod_simps algebra_simps)
qed

lemma weekdayOf_shift: "weekdayOf e (t + k * msPerDay) = (weekdayOf e t + k) mod 7"
  using WeekDay_shift [of "LocalTime e t" k]
  by (simp add: weekdayOf_def LocalTime_def algebra_simps)

lemma weekdayOf_range: "0 \<le> weekdayOf e t \<and> weekdayOf e t < 7"
  by (simp add: weekdayOf_def WeekDay_def)

lemma setHours_start: "setHours e (Some t) 0 0 0 0 = Some (localMidnight e t)"
  by (simp add: setHours_def localMidnight_def)

lemma setHours_end: "setHours e (Some t) 23 59 59 999 = Some (localDayEnd e t)"
  by (simp add: setHours_def localDayEnd_def localMidnight_def UTC_def)

lemma localMidnight_le: "localMidnight e t \<le> t"
proof -
  have "LocalTime e t div msPerDay * msPerDay \<le> LocalTime e t"
    by (simp add: msPerDay_def)
  then show ?thesis
    by (simp add: localMidnight_def Day_def UTC_def LocalTime_def)
qed

lemma localMidnight_gt: "t < localMidnight e t + msPerDay"
proof -
  have "LocalTime e t mod msPerDay < msPerDay"
    by (simp add: msPerDay_def)
  moreover have "LocalTime e t = LocalTime e t div msPerDay * msPerDay + LocalTime e t mod msPerDay"
    by simp
  ultimately have "LocalTime e t < LocalTime e t div msPerDay * msPerDay + msPerDay"
    by linarith
  then show ?thesis
    by (simp add: localMidnight_def Day_def UTC_def LocalTime_def)
qed

lemma localDayEnd_ge: "t \<le> localDayEnd e t"
  using localMidnight_gt [of t e] by (simp add: localDayEnd_def msPerDay_def)

lemma localMidnight_shift: "localMidnight e (t + k * msPerDay) = localMidnight e t + k * msPerDay"
proof -
  have "(LocalTime e t + k * msPerDay) div msPerDay = LocalTime e t div msPerDay + k"
    by (simp add: msPerDay_def)
  then show ?thesis
    by (simp add: localMidnight_def Day_def UTC_def LocalTime_def algebra_simps)
qed

text \<open>
  The year computed for a day number is the one ECMAScript asks for: the year whose first
  day is at or before the day, the next year starting after it.
\<close>

lemma DayFromYear_lower: "146097 * n - 506 \<le> 400 * DayFromYear (1970 + n)"
proof -
  define a where "a = (1 + n) div 4"
  define b where "b = (69 + n) div 100"
  define c where "c = (369 + n) div 400"
  have a: "n + 1 - 3 \<le> 4 * a" unfolding a_def by linarith
  have b: "100 * b \<le> n + 69" unfolding b_def by linarith
  have c: "n + 369 - 399 \<le> 400 * c" unfolding c_def by linarith
  have "DayFromYear (1970 + n) = 365 * n + a - b + c"
    by (simp add: DayFromYear_def a_def b_def c_def)
  then show ?thesis
    using a b c by linarith
qed

lemma DayFromYear_upper: "400 * DayFromYear (1970 + n) \<le> 146097 * n + 589"
proof -
  define a where "a = (1 + n) div 4"
  define b where "b = (69 + n) div 100"
  define c where "c = (369 + n) div 400"
  have a: "4 * a \<le> n + 1" unfolding a_def by linarith
  have b: "n + 69 - 99 \<le> 100 * b" unfolding b_def by linarith
  have c: "400 * c \<le> n + 369" unfolding c_def by linarith
  have "DayFromYear (1970 + n) = 365 * n + a - b + c"
    by (simp add: DayFromYear_def a_def b_def c_def)
  then show ?thesis
    using a b c by linarith
qed

lemma YearFromDay_spec:
  "DayFromYear (YearFromDay d) \<le> d \<and> d < DayFromYear (YearFromDay d + 1)"
proof -
  define n where "n = (400 * d) div 146097"
  have n1: "146097 * n \<le> 400 * d" and n2: "400 * d < 146097 * n + 146097"
    unfolding n_def by linarith+
  have "400 * DayFromYear (1970 + (n - 1)) \<le> 146097 * n - 145508"
    using DayFromYear_upper [of "n - 1"] by simp
  then have lo: "DayFromYear (1970 + n - 1) \<le> d"
    using n1 by simp
  have "146097 * n + 291688 \<le> 400 * DayFromYear (1970 + (n + 2))"
    using DayFromYear_lower [of "n + 2"] by simp
  then have hi: "d < DayFromYear (1970 + n + 2)"
    using n2 by (simp add: add.assoc)
  have y: "YearFromDay d =
     (if DayFromYear (1970 + n + 1) \<le> d then 1970 + n + 1
      else if d < DayFromYear (1970 + n) then 1970 + n - 1
      else 1970 + n)"
    by (simp add: YearFromDay_def Let_def n_def)
  have s: "1970 + n + 1 + 1 = 1970 + n + 2" "1970 + n - 1 + 1 = 1970 + n"
    by simp_all
  show ?thesis
    using lo hi by (auto simp: y s)
qed

lemma div_succ:
  assumes "0 < (n::int)"
  shows "(x + 1) div n = x div n + (if (x + 1) mod n = 0 then 1 else 0)"
proof (cases "x mod n = n - 1")
  case True
  have "x = n * (x div n) + x mod n" by simp
  then have e: "x + 1 = n * (x div n + 1) + 0"
    using True by (simp add: algebra_simps)
  have "(x + 1) div n = x div n + 1"
    using e assms by (intro int_div_pos_eq [of "x + 1" n "x div n + 1" 0]) simp_all
  moreover have "(x + 1) mod n = 0"
    using e assms by (intro int_mod_pos_eq [of "x + 1" n "x div n + 1" 0]) simp_all
  ultimately show ?thesis by simp
next
  case False
  have r: "0 \<le> x mod n" "x mod n < n"
    using assms by simp_all
  with False have r': "x mod n + 1 < n" by linarith
  have "x = n * (x div n) + x mod n" by simp
  then have e: "x + 1 = n * (x div n) + (x mod n + 1)"
    by linarith
  have "(x + 1) div n = x div n"
    using e r r' by (intro int_div_pos_eq [of "x + 1" n "x div n" "x mod n + 1"]) simp_all
  moreover have "(x + 1) mod n = x mod n + 1"
    using e r r' by (intro int_mod_pos_eq [of "x + 1" n "x div n" "x mod n + 1"]) simp_all
  ultimately show ?thesis
    using r by simp
qed

lemma mod_shift: "(k::int) mod n = 0 \<Longrightarrow> (y - k) mod n = y mod n"
  by (metis diff_zero mod_diff_right_eq)

lemma DayFromYear_Suc: "DayFromYear (y + 1) = DayFromYear y + 365 + InLeapYear y"
proof -
  have m4: "(y - 1969 + 1) mod 4 = y mod 4"
    using mod_shift [of 1968 4 y] by simp
  have m100: "(y - 1901 + 1) mod 100 = y mod 100"
    using mod_shift [of 1900 100 y] by simp
  have m400: "(y - 1601 + 1) mod 400 = y mod 400"
    using mod_shift [of 1600 400 y] by simp
  have a: "(y + 1 - 1969) div 4 = (y - 1969) div 4 + (if y mod 4 = 0 then 1 else 0)"
    using div_succ [of 4 "y - 1969"] m4 by (simp add: algebra_simps)
  have b: "(y + 1 - 1901) div 100 = (y - 1901) div 100 + (if y mod 100 = 0 then 1 else 0)"
    using div_succ [of 100 "y - 1901"] m100 by (simp add: algebra_simps)
  have c: "(y + 1 - 1601) div 400 = (y - 1601) div 400 + (if y mod 400 = 0 then 1 else 0)"
    using div_succ [of 400 "y - 1601"] m400 by (simp add: algebra_simps)
  have d1: "y mod 100 = 0 \<Longrightarrow> y mod 4 = 0"
  proof -
    assume "y mod 100 = 0"
    then have "100 dvd y" by (simp add: mod_eq_0_iff_dvd)
    moreover have "(4::int) dvd 100" by simp
    ultimately have "4 dvd y" by (metis dvd_trans)
    then show ?thesis by (simp add: mod_eq_0_iff_dvd)
  qed
  have d2: "y mod 400 = 0 \<Longrightarrow> y mod 100 = 0"
  proof -
    assume "y mod 400 = 0"
    then have "400 dvd y" by (simp add: mod_eq_0_iff_dvd)
    moreover have "(100::int) dvd 400" by simp
    ultimately have "100 dvd y" by (metis dvd_trans)
    then show ?thesis by (simp add: mod_eq_0_iff_dvd)
  qed
  show ?thesis
    unfolding DayFromYear_def InLeapYear_def a b c using d1 d2 by auto
qed

lemma InLeapYear_range: "InLeapYear y = 0 \<or> InLeapYear y = 1"
  by (simp add: InLeapYear_def)

lemma DayWithinYear_range:
  "0 \<le> DayWithinYear d \<and> DayWithinYear d < 365 + InLeapYear (YearFromDay d)"
  using YearFromDay_spec [of d] DayFromYear_Suc [of "YearFromDay d"]
  by (simp add: DayWithinYear_def)

lemma DateFromDay_range: "1 \<le> DateFromDay d \<and> DateFromDay d \<le> 31"
proof -
  define w where "w = DayWithinYear d"
  define l where "l = InLeapYear (YearFromDay d)"
  have w: "0 \<le> w" "w < 365 + l"
    using DayWithinYear_range [of d] by (simp_all add: w_def l_def)
  have l: "l = 0 \<or> l = 1"
    unfolding l_def by (rule InLeapYear_range)
  have "DateFromDay d
        = w - monthOffset
                (if w < 31 then 0 else if w < 59 + l then 1 else if w < 90 + l then 2
                 else if w < 120 + l then 3 else if w < 151 + l then 4
                 else if w < 181 + l then 5 else if w < 212 + l then 6
                 else if w < 243 + l then 7 else if w < 273 + l then 8
                 else if w < 304 + l then 9 else if w < 334 + l then 10
                 else 11) l + 1"
    by (simp add: DateFromDay_def MonthFromDay_def Let_def w_def l_def)
  then show ?thesis
    unfolding monthOffset_def using w l by (simp split: if_splits) linarith
qed

lemma day_from_parts:
  "d = DayFromYear (YearFromDay d)
       + monthOffset (MonthFromDay d) (InLeapYear (YearFromDay d)) + DateFromDay d - 1"
  by (simp add: DateFromDay_def DayWithinYear_def)

section \<open>Numbers and dates as strings\<close>

text \<open>
  \<open>toDateString\<close> tells the local calendar days apart: the digits of a number
  give the number back, so two valid dates print alike only on the same local day, and
  no valid date prints as \<open>Invalid Date\<close>.
\<close>

lemma digit_cases: "d < 10 \<Longrightarrow> d \<in> {0, 1, 2, 3, 4, 5, 6, 7, 8, 9 :: nat}"
  by auto

lemma digitValue_digitChar: "d < 10 \<Longrightarrow> digitValue (digitChar d) = Some d"
  using digit_cases [of d] by (auto simp: digitChar_def digitValue_def)

lemma digitChar_not_minus: "d < 10 \<Longrightarrow> digitChar d \<noteq> CHR ''-''"
  using digit_cases [of d] by (auto simp: digitChar_def)

lemma natToString_unfold:
  "natToString 10 n
   = (if n < 10 then [digitChar n] else natToString 10 (n div 10) @ [digitChar (n mod 10)])"
  by (simp add: natToString.simps [of 10 n])

lemma digitsValue_snoc:
  "digitsValue r (z @ [c]) = digitsValue r z * r + the (digitValue c)"
  by (simp add: digitsValue_def)

lemma digitsValue_natToString: "digitsValue 10 (natToString 10 n) = n"
proof (induction n rule: less_induct)
  case (less n)
  show ?case
  proof (cases "n < 10")
    case True
    then show ?thesis
      by (subst natToString_unfold) (simp add: digitsValue_def digitValue_digitChar)
  next
    case False
    then have "n div 10 < n" by simp
    then have "digitsValue 10 (natToString 10 (n div 10)) = n div 10"
      by (rule less.IH)
    then show ?thesis
      using False
      by (subst natToString_unfold) (simp add: digitsValue_snoc digitValue_digitChar)
  qed
qed

lemma natToString_no_minus: "CHR ''-'' \<notin> set (natToString 10 n)"
proof (induction n rule: less_induct)
  case (less n)
  show ?case
  proof (cases "n < 10")
    case True
    then show ?thesis
      using digitChar_not_minus [of n] by (subst natToString_unfold) auto
  next
    case False
    then have "n div 10 < n" by simp
    then have "CHR ''-'' \<notin> set (natToString 10 (n div 10))"
      by (rule less.IH)
    then show ?thesis
      using False digitChar_not_minus [of "n mod 10"]
      by (subst natToString_unfold) auto
  qed
qed

lemma natToString_nonempty: "natToString 10 n \<noteq> []"
  by (subst natToString_unfold) simp

lemma digitsValue_zeros: "digitsValue 10 (replicate k CHR ''0'' @ s) = digitsValue 10 s"
proof -
  have "foldl (\<lambda>acc c. acc * 10 + the (digitValue c)) 0 (replicate k CHR ''0'') = (0::nat)"
    by (induction k) (simp_all add: digitValue_def)
  then show ?thesis
    by (simp add: digitsValue_def)
qed

lemma digitsValue_padZero: "digitsValue 10 (padZero w i) = nat i"
  by (simp add: padZero_def Let_def digitsValue_zeros digitsValue_natToString)

lemma padZero_inj: "0 \<le> i \<Longrightarrow> 0 \<le> j \<Longrightarrow> padZero w i = padZero w j \<Longrightarrow> i = j"
  using digitsValue_padZero [of w i] digitsValue_padZero [of w j] by simp

lemma padZero_no_minus: "CHR ''-'' \<notin> set (padZero w i)"
  using natToString_no_minus [of "nat i"] by (auto simp: padZero_def Let_def)

lemma padZero_nonempty: "padZero w i \<noteq> []"
  using natToString_nonempty [of "nat i"] by (simp add: padZero_def Let_def)

lemma length_padZero_2: "0 \<le> i \<Longrightarrow> i < 100 \<Longrightarrow> length (padZero 2 i) = 2"
proof -
  assume i: "0 \<le> i" "i < 100"
  define n where "n = nat i"
  have n: "n < 100" using i by (simp add: n_def)
  have "length (natToString 10 n) = (if n < 10 then 1 else 2)"
  proof (cases "n < 10")
    case True
    then show ?thesis by (subst natToString_unfold) simp
  next
    case False
    with n have "n div 10 < 10" by simp
    then have "natToString 10 (n div 10) = [digitChar (n div 10)]"
      by (subst natToString_unfold) simp
    then show ?thesis
      using False by (subst natToString_unfold) simp
  qed
  then show ?thesis
    by (simp add: padZero_def Let_def n_def)
qed

lemma yearString_inj: "yearString y = yearString z \<Longrightarrow> y = z"
proof -
  assume eq: "yearString y = yearString z"
  have hd_nonneg: "\<And>v. hd (padZero 4 v) \<noteq> CHR ''-''"
    using padZero_no_minus padZero_nonempty by (metis hd_in_set)
  consider "y < 0" "z < 0" | "0 \<le> y" "0 \<le> z" | "y < 0" "0 \<le> z" | "0 \<le> y" "z < 0"
    by linarith
  then show ?thesis
  proof cases
    case 1
    with eq have "padZero 4 \<bar>y\<bar> = padZero 4 \<bar>z\<bar>"
      by (simp add: yearString_def)
    then have "\<bar>y\<bar> = \<bar>z\<bar>" by (intro padZero_inj [of _ _ 4]) simp_all
    with 1 show ?thesis by simp
  next
    case 2
    with eq have "padZero 4 \<bar>y\<bar> = padZero 4 \<bar>z\<bar>"
      by (simp add: yearString_def)
    then have "\<bar>y\<bar> = \<bar>z\<bar>" by (intro padZero_inj [of _ _ 4]) simp_all
    with 2 show ?thesis by simp
  next
    case 3
    with eq have "CHR ''-'' # padZero 4 \<bar>y\<bar> = padZero 4 \<bar>z\<bar>"
      by (simp add: yearString_def)
    then have "hd (padZero 4 \<bar>z\<bar>) = CHR ''-''"
      by (metis list.sel(1))
    with hd_nonneg show ?thesis by blast
  next
    case 4
    with eq have "padZero 4 \<bar>y\<bar> = CHR ''-'' # padZero 4 \<bar>z\<bar>"
      by (simp add: yearString_def)
    then have "hd (padZero 4 \<bar>y\<bar>) = CHR ''-''"
      by (metis list.sel(1))
    with hd_nonneg show ?thesis by blast
  qed
qed

lemma toDateString_valid: "toDateString e (Some t) = dateString (Day (LocalTime e t))"
  by (simp add: toDateString_def dateString_def yearString_def Let_def)

lemma length_dayName: "length (dayNames ! nat (WeekDay d)) = 3"
proof -
  have "nat (WeekDay d) < 7"
    by (simp add: WeekDay_def)
  moreover have "list_all (\<lambda>s. length s = 3) dayNames"
    by (simp add: dayNames_def)
  ultimately show ?thesis
    by (simp add: list_all_length dayNames_def)
qed

lemma length_monthName: "length (monthNames ! nat (MonthFromDay d)) = 3"
proof -
  have "nat (MonthFromDay d) < 12"
    using MonthFromDay_range [of d] by linarith
  moreover have "list_all (\<lambda>s. length s = 3) monthNames"
    by (simp add: monthNames_def)
  ultimately show ?thesis
    by (simp add: list_all_length monthNames_def)
qed

lemma dateString_inj:
  assumes "dateString a = dateString b"
  shows "a = b"
proof -
  have r: "0 \<le> DateFromDay d \<and> DateFromDay d < 100" for d
    using DateFromDay_range [of d] by linarith
  have l2: "\<And>d. length (padZero 2 (DateFromDay d)) = 2"
    using r by (simp add: length_padZero_2)
  from assms have 1: "dayNames ! nat (WeekDay a) = dayNames ! nat (WeekDay b)"
    and 2: "monthNames ! nat (MonthFromDay a) @ CHR '' '' # padZero 2 (DateFromDay a)
              @ CHR '' '' # yearString (YearFromDay a)
            = monthNames ! nat (MonthFromDay b) @ CHR '' '' # padZero 2 (DateFromDay b)
              @ CHR '' '' # yearString (YearFromDay b)"
    unfolding dateString_def by (simp_all add: append_eq_append_conv length_dayName)
  from 2 have 3: "monthNames ! nat (MonthFromDay a) = monthNames ! nat (MonthFromDay b)"
    and 4: "padZero 2 (DateFromDay a) @ CHR '' '' # yearString (YearFromDay a)
            = padZero 2 (DateFromDay b) @ CHR '' '' # yearString (YearFromDay b)"
    by (simp_all add: append_eq_append_conv length_monthName)
  from 4 have 5: "padZero 2 (DateFromDay a) = padZero 2 (DateFromDay b)"
    and 6: "yearString (YearFromDay a) = yearString (YearFromDay b)"
    by (simp_all add: append_eq_append_conv l2)
  have "distinct monthNames"
    by (simp add: monthNames_def)
  moreover have "nat (MonthFromDay a) < length monthNames" "nat (MonthFromDay b) < length monthNames"
    using MonthFromDay_range [of a] MonthFromDay_range [of b] by (simp_all add: monthNames_def) linarith+
  ultimately have "nat (MonthFromDay a) = nat (MonthFromDay b)"
    using 3 by (simp add: nth_eq_iff_index_eq)
  then have m: "MonthFromDay a = MonthFromDay b"
    using MonthFromDay_range [of a] MonthFromDay_range [of b] by linarith
  have d: "DateFromDay a = DateFromDay b"
    using 5 r by (intro padZero_inj [of _ _ 2]) simp_all
  have y: "YearFromDay a = YearFromDay b"
    using 6 by (rule yearString_inj)
  show ?thesis
    using day_from_parts [of a] day_from_parts [of b] m d y by simp
qed

lemma dateString_valid_form: "dateString d \<noteq> ''Invalid Date''"
proof
  assume "dateString d = ''Invalid Date''"
  then have "dateString d ! 3 = ''Invalid Date'' ! 3"
    by simp
  moreover have "dateString d ! 3 = CHR '' ''"
    using length_dayName [of d] by (simp add: dateString_def nth_append)
  ultimately show False
    by simp
qed

lemma toDateString_eq_iff:
  "(toDateString e x = toDateString e y)
   = (map_option (\<lambda>t. Day (LocalTime e t)) x = map_option (\<lambda>t. Day (LocalTime e t)) y)"
proof (cases x)
  case None
  show ?thesis
  proof (cases y)
    case None
    with \<open>x = None\<close> show ?thesis by simp
  next
    case (Some t)
    have "toDateString e None \<noteq> toDateString e (Some t)"
      using dateString_valid_form [of "Day (LocalTime e t)"]
      by (simp add: toDateString_valid) (simp add: toDateString_def)
    with Some \<open>x = None\<close> show ?thesis by simp
  qed
next
  case (Some s)
  show ?thesis
  proof (cases y)
    case None
    have "toDateString e (Some s) \<noteq> toDateString e None"
      using dateString_valid_form [of "Day (LocalTime e s)"]
      by (simp add: toDateString_valid) (simp add: toDateString_def)
    with None \<open>x = Some s\<close> show ?thesis by simp
  next
    case (Some t)
    then show ?thesis
      using \<open>x = Some s\<close> dateString_inj by (auto simp: toDateString_valid)
  qed
qed

lemma dayKey_eq_iff: "(dayKey e a = dayKey e b) = (localDay e a = localDay e b)"
  by (simp add: dayKey_def localDay_def toDateString_eq_iff)

lemma distinct_dayKey_localDay:
  "distinct (map (dayKey e) xs) = distinct (map (localDay e) xs)"
  by (simp add: distinct_map inj_on_def dayKey_eq_iff)

section \<open>Evaluation of the examples\<close>

lemmas parse_simps = parseIntString_def isWhiteSpace_def isRadixDigit_def digitValue_def
  digitsValue_def

lemmas calendar_simps = DateFromDay_def DayWithinYear_def YearFromDay_def DayFromYear_def
  MonthFromDay_def monthOffset_def InLeapYear_def MakeDay_def WeekDay_def Day_def
  TimeWithinDay_def msPerDay_def DaysInMonth_def

lemma isoDateParse_example: "isoDateParse ''2024-01-10'' = Some 1704844800000"
  by (simp add: isoDateParse_def parse_simps calendar_simps Let_def)

lemmas eval_simps = isoDateParse_def parse_simps calendar_simps utcEnv_def LocalTime_def UTC_def
  localMidnight_def localDayEnd_def datedWithin_def dateOf_def getFoodEntries_def
  emptyStorage_def Let_def

lemma iso_2024_01_01: "isoDateParse ''2024-01-01'' = Some 1704067200000"
  by (simp add: isoDateParse_def parse_simps calendar_simps Let_def)

lemma iso_2024_01_02: "isoDateParse ''2024-01-02'' = Some 1704153600000"
  by (simp add: isoDateParse_def parse_simps calendar_simps Let_def)

lemma dateString_2024_01_01: "toDateString utcEnv (Some 1704067200000) = ''Mon Jan 01 2024''"
  unfolding toDateString_def utcEnv_def LocalTime_def
  apply (simp add: Day_def msPerDay_def)
  apply (simp add: Let_def)
  apply (simp add: calendar_simps Let_def)
  apply (simp add: padZero_def natToString.simps dayNames_def monthNames_def digitChar_def Let_def)
  done

lemma dateString_2024_01_02: "toDateString utcEnv (Some 1704153600000) = ''Tue Jan 02 2024''"
  unfolding toDateString_def utcEnv_def LocalTime_def
  apply (simp add: Day_def msPerDay_def)
  apply (simp add: Let_def)
  apply (simp add: calendar_simps Let_def)
  apply (simp add: padZero_def natToString.simps dayNames_def monthNames_def digitChar_def Let_def)
  done

lemmas weight_eval = weightStore_def applyWrites_def saveWeightEntry_def Let_def
  getWeightEntries_def emptyStorage_def jsSort_def dateOf_def dayKey_def utcEnv_def
  iso_2024_01_01 iso_2024_01_02 dateString_2024_01_01 [unfolded utcEnv_def]
  dateString_2024_01_02 [unfolded utcEnv_def] num_sub_def positive_def

text \<open>The hash of the PIN \<open>1234\<close> (code units 49 to 52).\<close>

lemma hashPin_1234: "hashPin [49, 50, 51, 52] = ''cf_wcoy_4''"
  by (simp add: hashPin_def natToString.simps digitChar_def Let_def)

section \<open>Arrays\<close>

lemma findIndex_Some:
  "findIndex p xs = Some i \<Longrightarrow> i < length xs \<and> p (xs ! i) \<and> (\<forall>j<i. \<not> p (xs ! j))"
proof (induction xs arbitrary: i)
  case Nil
  then show ?case by simp
next
  case (Cons x xs)
  show ?case
  proof (cases "p x")
    case True
    with Cons.prems show ?thesis by simp
  next
    case False
    with Cons.prems obtain k where k: "findIndex p xs = Some k" "i = Suc k"
      by auto
    from Cons.IH [OF k(1)] False k(2) show ?thesis
      by (auto simp: less_Suc_eq_0_disj)
  qed
qed

lemma findIndex_None: "(findIndex p xs = None) = (\<forall>x\<in>set xs. \<not> p x)"
  by (induction xs) auto

lemma mset_insertBy: "mset (insertBy cmp x xs) = add_mset x (mset xs)"
  by (induction xs) auto

lemma mset_jsSort: "mset (jsSort cmp xs) = mset xs"
  by (induction xs) (auto simp: jsSort_def mset_insertBy)

lemma set_insertBy: "set (insertBy cmp x xs) = insert x (set xs)"
  using mset_insertBy [of cmp x xs] by (metis set_mset_add_mset_insert set_mset_mset)

lemma set_jsSort: "set (jsSort cmp xs) = set xs"
  using mset_jsSort [of cmp xs] by (metis set_mset_mset)

lemma length_jsSort: "length (jsSort cmp xs) = length xs"
  using mset_jsSort [of cmp xs] by (metis size_mset)

lemma distinct_map_jsSort: "distinct (map f (jsSort cmp xs)) = distinct (map f xs)"
proof -
  have "mset (map f (jsSort cmp xs)) = mset (map f xs)"
    by (simp add: mset_jsSort)
  then show ?thesis
    by (rule mset_eq_imp_distinct_iff)
qed

section \<open>Total calories\<close>

lemma toDouble_not_NaN: "toDouble n \<noteq> NaN"
  by (simp add: toDouble_def Let_def)

lemma toDouble_small: "\<bar>n\<bar> < 2 ^ 53 \<Longrightarrow> toDouble n = Finite n"
proof -
  assume "\<bar>n\<bar> < 2 ^ 53"
  then have "nat \<bar>n\<bar> < 2 ^ 53"
    by (simp add: nat_less_iff)
  then show ?thesis
    by (simp add: toDouble_def Let_def)
qed

lemma toDouble_finite: "\<bar>n\<bar> < 2 ^ 1024 - 2 ^ 970 \<Longrightarrow> isFinite (toDouble n)"
proof -
  assume "\<bar>n\<bar> < 2 ^ 1024 - 2 ^ 970"
  then have "int (nat \<bar>n\<bar>) < int (2 ^ 1024 - 2 ^ 970)"
    by simp
  then have "\<not> (2 ^ 1024 - 2 ^ 970 \<le> nat \<bar>n\<bar>)"
    by linarith
  then show ?thesis
    by (simp add: toDouble_def Let_def)
qed

lemma or_zero_not_NaN: "or_zero v \<noteq> NaN"
  by (cases v) simp_all

lemma caloriesOf_not_NaN: "caloriesOf e x \<noteq> NaN"
  by (simp add: caloriesOf_def or_zero_not_NaN)

lemma double_add_finite_not_NaN: "acc \<noteq> NaN \<Longrightarrow> isFinite c \<Longrightarrow> double_add acc c \<noteq> NaN"
  by (cases acc; cases c) (simp_all add: toDouble_not_NaN)

lemma total_as_fold:
  "calculateTotalCalories e entries = foldl double_add (Finite 0) (map (caloriesOf e) entries)"
  by (simp add: calculateTotalCalories_def caloriesOf_def foldl_map)

lemma fold_finite_not_NaN:
  "acc \<noteq> NaN \<Longrightarrow> list_all isFinite cs \<Longrightarrow> foldl double_add acc cs \<noteq> NaN"
  by (induction cs arbitrary: acc) (simp_all add: double_add_finite_not_NaN)

lemma fold_exact:
  "list_all isFinite cs \<Longrightarrow> \<bar>a\<bar> + (\<Sum>c\<leftarrow>cs. \<bar>finiteValue c\<bar>) < 2 ^ 53
   \<Longrightarrow> foldl double_add (Finite a) cs = Finite (a + (\<Sum>c\<leftarrow>cs. finiteValue c))"
proof (induction cs arbitrary: a)
  case Nil
  then show ?case by simp
next
  case (Cons c cs)
  from Cons.prems(1) obtain n where c: "c = Finite n"
    by (cases c) simp_all
  have nn: "0 \<le> (\<Sum>c\<leftarrow>cs. \<bar>finiteValue c\<bar>)"
    by (rule sum_list_nonneg) auto
  have "\<bar>a + n\<bar> \<le> \<bar>a\<bar> + \<bar>n\<bar>"
    by simp
  with Cons.prems(2) nn have b: "\<bar>a + n\<bar> < 2 ^ 53"
    and b': "\<bar>a + n\<bar> + (\<Sum>c\<leftarrow>cs. \<bar>finiteValue c\<bar>) < 2 ^ 53"
    by (simp_all add: c)
  have "foldl double_add (Finite (a + n)) cs = Finite (a + n + (\<Sum>c\<leftarrow>cs. finiteValue c))"
    using Cons.prems(1) b' by (intro Cons.IH) simp_all
  then show ?case
    using b by (simp add: c toDouble_small)
qed

lemma digitsValue_bound:
  "list_all (isRadixDigit r) z \<Longrightarrow> digitsValue r z < r ^ length z"
proof (induction z rule: rev_induct)
  case Nil
  then show ?case by (simp add: digitsValue_def)
next
  case (snoc c z)
  then have ih: "digitsValue r z < r ^ length z" and d: "isRadixDigit r c"
    by simp_all
  from d obtain v where v: "digitValue c = Some v" "v < r"
    by (auto simp: isRadixDigit_def split: option.splits)
  have "digitsValue r (z @ [c]) = digitsValue r z * r + v"
    by (simp add: digitsValue_def v)
  also have "\<dots> \<le> (r ^ length z - 1) * r + v"
  proof -
    have "digitsValue r z \<le> r ^ length z - 1"
      using ih by linarith
    then show ?thesis
      by (simp add: mult_le_mono1)
  qed
  also have "\<dots> < (r ^ length z - 1) * r + r"
    using v by simp
  also have "\<dots> = r ^ length z * r"
    using ih by (cases "r ^ length z") simp_all
  finally show ?case by (simp add: mult.commute)
qed

lemma parseIntString_short:
  assumes "length s \<le> 255"
  shows "parseIntString s = NaN \<or> isFinite (parseIntString s)"
proof -
  define s1 where "s1 = dropWhile isWhiteSpace s"
  define s2 where "s2 = (if s1 \<noteq> [] \<and> (hd s1 = CHR ''-'' \<or> hd s1 = CHR ''+'') then tl s1 else s1)"
  define hex where "hex = (2 \<le> length s2 \<and> s2 ! 0 = CHR ''0'' \<and> (s2 ! 1 = CHR ''x'' \<or> s2 ! 1 = CHR ''X''))"
  define radix :: nat where "radix = (if hex then 16 else 10)"
  define s3 where "s3 = (if hex then drop 2 s2 else s2)"
  define z where "z = takeWhile (isRadixDigit radix) s3"
  define sign :: int where "sign = (if s1 \<noteq> [] \<and> hd s1 = CHR ''-'' then - 1 else 1)"
  have p: "parseIntString s = (if z = [] then NaN else toDouble (sign * int (digitsValue radix z)))"
    unfolding z_def s3_def radix_def hex_def s2_def sign_def s1_def parseIntString_def Let_def ..
  have "length s1 \<le> length s"
    unfolding s1_def by (rule length_dropWhile_le)
  moreover have "length s2 \<le> length s1"
    by (simp add: s2_def)
  moreover have "length s3 \<le> length s2"
    by (simp add: s3_def)
  moreover have "length z \<le> length s3"
    unfolding z_def by (rule length_takeWhile_le)
  ultimately have lz: "length z \<le> 255"
    using assms by linarith
  have "list_all (isRadixDigit radix) z"
    unfolding z_def list_all_iff using set_takeWhileD by fastforce
  then have "digitsValue radix z < radix ^ length z"
    by (rule digitsValue_bound)
  also have "\<dots> \<le> 16 ^ length z"
    by (simp add: radix_def power_mono)
  also have "\<dots> \<le> 16 ^ 255"
    using lz by (intro power_increasing) simp_all
  finally have "int (digitsValue radix z) < int (16 ^ 255)"
    by (simp only: of_nat_less_iff)
  then have "int (digitsValue radix z) < 16 ^ 255"
    by simp
  moreover have "\<bar>sign * int (digitsValue radix z)\<bar> = int (digitsValue radix z)"
    by (simp add: sign_def abs_mult)
  moreover have "(16::int) ^ 255 < 2 ^ 1024 - 2 ^ 970"
    by simp
  ultimately have "\<bar>sign * int (digitsValue radix z)\<bar> < 2 ^ 1024 - 2 ^ 970"
    by linarith
  then have "isFinite (toDouble (sign * int (digitsValue radix z)))"
    by (rule toDouble_finite)
  then show ?thesis
    by (simp add: p)
qed

lemma or_zero_finite: "v = NaN \<or> isFinite v \<Longrightarrow> isFinite (or_zero v)"
  by (cases v) simp_all

lemma parse_names:
  "parseIntString ''undefined'' = NaN" "parseIntString ''null'' = NaN"
  "parseIntString ''true'' = NaN" "parseIntString ''false'' = NaN"
  by (simp_all add: parseIntString_def isWhiteSpace_def isRadixDigit_def digitValue_def Let_def)

lemma shortCalories_finite: "shortCalories e x \<Longrightarrow> isFinite (caloriesOf e x)"
proof -
  assume a: "shortCalories e x"
  have "parseInt e (x ''calories'') = NaN \<or> isFinite (parseInt e (x ''calories''))"
  proof (cases "x ''calories''")
    case None
    then show ?thesis by (simp add: parse_names)
  next
    case (Some v)
    then show ?thesis
      using a by (cases v) (simp_all add: parse_names shortCalories_def parseIntString_short)
  qed
  then show ?thesis
    unfolding caloriesOf_def by (rule or_zero_finite)
qed

lemma digitsValue_nines: "digitsValue 10 (replicate n CHR ''9'') = 10 ^ n - 1"
proof (induction n)
  case 0
  then show ?case by (simp add: digitsValue_def)
next
  case (Suc n)
  have "replicate (Suc n) CHR ''9'' = replicate n CHR ''9'' @ [CHR ''9'']"
    by (simp add: replicate_append_same)
  then have "digitsValue 10 (replicate (Suc n) CHR ''9'') = (10 ^ n - 1) * 10 + 9"
    using Suc by (simp only: digitsValue_snoc) (simp add: digitValue_def)
  also have "\<dots> = 10 ^ Suc n - 1"
    by (simp add: algebra_simps)
  finally show ?case .
qed

lemma nines_digits:
  "\<not> isWhiteSpace CHR ''9''" "isRadixDigit 10 CHR ''9''" "isWhiteSpace CHR ''-'' = False"
  by (simp_all add: isWhiteSpace_def isRadixDigit_def digitValue_def)

lemma parse_nines: "parseIntString (replicate 400 CHR ''9'') = PosInfinity"
  by (simp add: parseIntString_def Let_def nines_digits digitsValue_nines toDouble_def)

lemma parse_minus_nines: "parseIntString (CHR ''-'' # replicate 400 CHR ''9'') = NegInfinity"
  by (simp add: parseIntString_def Let_def nines_digits digitsValue_nines toDouble_def)

text \<open>
  A number is read through its string: on a runtime that prints \<open>10^21\<close> as \<open>1e+21\<close>
  and \<open>10^-7\<close> as \<open>1e-7\<close>, as ECMAScript prescribes, \<open>parseInt\<close> reads 1 in both.
\<close>

lemma parseInt_exponent:
  "numberToString e (10 ^ 21) = ''1e+21'' \<Longrightarrow> parseInt e (Some (JNum (10 ^ 21))) = Finite 1"
  "numberToString e (1 / 10 ^ 7) = ''1e-7'' \<Longrightarrow> parseInt e (Some (JNum (1 / 10 ^ 7))) = Finite 1"
  by (simp_all add: parseIntString_def isWhiteSpace_def isRadixDigit_def digitValue_def
      digitsValue_def toDouble_def Let_def)

lemma plain_70: "plainNumberToString 70 = ''70''"
  by (simp add: plainNumberToString_def Let_def natToString.simps digitChar_def)

text \<open>
  Claim C10, as the code has it. \<open>calculateTotalCalories\<close> adds, from left to right and
  in double arithmetic, what each entry contributes: the number that \<open>parseInt\<close> reads in
  its \<open>calories\<close>, and 0 when \<open>parseInt\<close> reads none (so for an entry without the
  property, or with \<open>null\<close>). A contribution is never \<open>NaN\<close>, but it is an infinity when
  the integer read is \<open>2^1024 - 2^970\<close> or more in magnitude. The total is not \<open>NaN\<close>
  when every contribution is finite, which is so when every \<open>calories\<close> is read from at
  most 255 characters; and when the magnitudes of the contributions add up to less than
  \<open>2^53\<close> the total is exactly their integer sum.
\<close>

theorem calculateTotalCalories_sum:
  "calculateTotalCalories e entries = foldl double_add (Finite 0) (map (caloriesOf e) entries)
   \<and> caloriesOf e x \<noteq> NaN
   \<and> (parseInt e (x ''calories'') = NaN \<longrightarrow> caloriesOf e x = Finite 0)
   \<and> caloriesOf e (x(''calories'' := None)) = Finite 0
   \<and> caloriesOf e (x(''calories'' \<mapsto> JNull)) = Finite 0
   \<and> (list_all (\<lambda>x. isFinite (caloriesOf e x)) entries \<longrightarrow>
        calculateTotalCalories e entries \<noteq> NaN)
   \<and> (list_all (shortCalories e) entries \<longrightarrow> calculateTotalCalories e entries \<noteq> NaN)
   \<and> (list_all (\<lambda>x. isFinite (caloriesOf e x)) entries
        \<and> (\<Sum>x\<leftarrow>entries. \<bar>finiteValue (caloriesOf e x)\<bar>) < 2 ^ 53 \<longrightarrow>
        calculateTotalCalories e entries
          = Finite (\<Sum>x\<leftarrow>entries. finiteValue (caloriesOf e x)))"
proof -
  let ?cs = "map (caloriesOf e) entries"
  have f: "calculateTotalCalories e entries = foldl double_add (Finite 0) ?cs"
    by (rule total_as_fold)
  have n: "caloriesOf e x \<noteq> NaN"
    by (rule caloriesOf_not_NaN)
  have z: "parseInt e (x ''calories'') = NaN \<longrightarrow> caloriesOf e x = Finite 0"
    by (simp add: caloriesOf_def)
  have m: "caloriesOf e (x(''calories'' := None)) = Finite 0"
    "caloriesOf e (x(''calories'' \<mapsto> JNull)) = Finite 0"
    by (simp_all add: caloriesOf_def parse_names)
  have a: "list_all (\<lambda>x. isFinite (caloriesOf e x)) entries \<longrightarrow>
        calculateTotalCalories e entries \<noteq> NaN"
    using fold_finite_not_NaN [of "Finite 0" ?cs] by (simp add: f list_all_iff)
  have "list_all (shortCalories e) entries \<longrightarrow> list_all (\<lambda>x. isFinite (caloriesOf e x)) entries"
    by (simp add: list_all_iff shortCalories_finite)
  with a have b: "list_all (shortCalories e) entries \<longrightarrow> calculateTotalCalories e entries \<noteq> NaN"
    by blast
  have c: "list_all (\<lambda>x. isFinite (caloriesOf e x)) entries
        \<and> (\<Sum>x\<leftarrow>entries. \<bar>finiteValue (caloriesOf e x)\<bar>) < 2 ^ 53 \<longrightarrow>
        calculateTotalCalories e entries
          = Finite (\<Sum>x\<leftarrow>entries. finiteValue (caloriesOf e x))"
    using fold_exact [of ?cs 0] by (simp add: f list_all_iff o_def)
  from f n z m a b c show ?thesis by blast
qed

text \<open>
  An egg of 70 and a toast of \<open>"120"\<close>, with two entries that have no readable calories:
  the contributions are 70, 120, 0 and 0, and the total is 190.
\<close>

theorem calculateTotalCalories_sum_witness:
  "list_all (shortCalories utcEnv)
     [[''name'' \<mapsto> JStr ''Egg'', ''calories'' \<mapsto> JNum 70, ''date'' \<mapsto> JStr ''2024-01-10''],
      [''name'' \<mapsto> JStr ''Toast'', ''calories'' \<mapsto> JStr ''120'', ''date'' \<mapsto> JStr ''2024-01-10''],
      [''name'' \<mapsto> JStr ''Tea'', ''calories'' \<mapsto> JStr ''n/a''],
      [''name'' \<mapsto> JStr ''Water'']]
   \<and> map (caloriesOf utcEnv)
     [[''name'' \<mapsto> JStr ''Egg'', ''calories'' \<mapsto> JNum 70, ''date'' \<mapsto> JStr ''2024-01-10''],
      [''name'' \<mapsto> JStr ''Toast'', ''calories'' \<mapsto> JStr ''120'', ''date'' \<mapsto> JStr ''2024-01-10''],
      [''name'' \<mapsto> JStr ''Tea'', ''calories'' \<mapsto> JStr ''n/a''],
      [''name'' \<mapsto> JStr ''Water'']] = [Finite 70, Finite 120, Finite 0, Finite 0]
   \<and> calculateTotalCalories utcEnv
     [[''name'' \<mapsto> JStr ''Egg'', ''calories'' \<mapsto> JNum 70, ''date'' \<mapsto> JStr ''2024-01-10''],
      [''name'' \<mapsto> JStr ''Toast'', ''calories'' \<mapsto> JStr ''120'', ''date'' \<mapsto> JStr ''2024-01-10''],
      [''name'' \<mapsto> JStr ''Tea'', ''calories'' \<mapsto> JStr ''n/a''],
      [''name'' \<mapsto> JStr ''Water'']] = Finite 190"
proof -
  let ?es = "[[''name'' \<mapsto> JStr ''Egg'', ''calories'' \<mapsto> JNum 70, ''date'' \<mapsto> JStr ''2024-01-10''],
      [''name'' \<mapsto> JStr ''Toast'', ''calories'' \<mapsto> JStr ''120'', ''date'' \<mapsto> JStr ''2024-01-10''],
      [''name'' \<mapsto> JStr ''Tea'', ''calories'' \<mapsto> JStr ''n/a''],
      [''name'' \<mapsto> JStr ''Water'']]"
  have s: "list_all (shortCalories utcEnv) ?es"
    by (simp add: shortCalories_def utcEnv_def plain_70)
  have c: "map (caloriesOf utcEnv) ?es = [Finite 70, Finite 120, Finite 0, Finite 0]"
    by (simp add: caloriesOf_def utcEnv_def plain_70 parseIntString_def isWhiteSpace_def
        isRadixDigit_def digitValue_def digitsValue_def toDouble_def Let_def)
  have f: "list_all (\<lambda>x. isFinite (caloriesOf utcEnv x)) ?es"
    using c by simp
  have b: "(\<Sum>x\<leftarrow>?es. \<bar>finiteValue (caloriesOf utcEnv x)\<bar>) < 2 ^ 53"
    using c by simp
  have v: "(\<Sum>x\<leftarrow>?es. finiteValue (caloriesOf utcEnv x)) = 190"
    using c by simp
  from calculateTotalCalories_sum [of utcEnv ?es] f b
  have "calculateTotalCalories utcEnv ?es = Finite (\<Sum>x\<leftarrow>?es. finiteValue (caloriesOf utcEnv x))"
    by blast
  then show ?thesis
    using s c v by simp
qed

text \<open>
  The total can be \<open>NaN\<close>. The digit 9 written 400 times reads as \<open>Infinity\<close>, with a
  minus sign as \<open>-Infinity\<close>, and the total of the two entries is \<open>NaN\<close>.
\<close>

theorem calculateTotalCalories_nan_counterexample:
  "parseInt utcEnv (Some (JStr (replicate 400 CHR ''9''))) = PosInfinity
   \<and> parseInt utcEnv (Some (JStr (CHR ''-'' # replicate 400 CHR ''9''))) = NegInfinity
   \<and> calculateTotalCalories utcEnv hugeEntries = NaN"
  by (simp add: calculateTotalCalories_def hugeEntries_def parse_nines parse_minus_nines)

section \<open>Week boundaries\<close>

lemma getWeekStart_valid:
  assumes "newDate e a = Some t"
  shows "getWeekStart e a
         = Some (t - (if weekdayOf e t = 0 then 6 else weekdayOf e t - 1) * msPerDay)"
proof -
  let ?wd = "weekdayOf e t"
  have gd: "getDay e (Some t) = Some ?wd"
    by (simp add: getDay_def weekdayOf_def)
  have "num_add (num_sub (getDate e (Some t)) (Some ?wd)) (Some (if ?wd = 0 then - 6 else 1))
        = num_add (getDate e (Some t)) (Some (- (if ?wd = 0 then 6 else ?wd - 1)))"
    by (simp add: num_add_def num_sub_def getDate_def)
  then show ?thesis
    using assms gd setDate_getDate [of e t "- (if ?wd = 0 then 6 else ?wd - 1)"]
    by (simp add: getWeekStart_def Let_def)
qed

text \<open>
  Claim C7. For a valid date, \<open>getWeekStart\<close> goes back 6 days from a Sunday and
  \<open>weekday - 1\<close> days from any other day, keeping the time of day: the result is a
  Monday, at most 6 days before the date, so the Monday of the week that holds the date.
  From a Wednesday it is two days back, from a Sunday six. \<open>getWeekEnd\<close> is
  \<open>getWeekStart\<close> plus 6 days, a Sunday.
\<close>

theorem getWeekStart_monday:
  assumes "newDate e a = Some t"
  shows "getWeekStart e a
           = Some (t - (if weekdayOf e t = 0 then 6 else weekdayOf e t - 1) * msPerDay)
         \<and> getDay e (getWeekStart e a) = Some 1
         \<and> date_le (getWeekStart e a) (Some t)
         \<and> date_le (Some t) (addDays e (DateObj (getWeekStart e a)) 6)
         \<and> (weekdayOf e t = 3 \<longrightarrow> getWeekStart e a = Some (t - 2 * msPerDay))
         \<and> (weekdayOf e t = 0 \<longrightarrow> getWeekStart e a = Some (t - 6 * msPerDay))
         \<and> getWeekEnd e a = addDays e (DateObj (getWeekStart e a)) 6
         \<and> getDay e (getWeekEnd e a) = Some 0"
proof -
  let ?wd = "weekdayOf e t"
  let ?k = "if ?wd = 0 then 6 else ?wd - 1"
  have ws: "getWeekStart e a = Some (t - ?k * msPerDay)"
    using assms by (rule getWeekStart_valid)
  have r: "0 \<le> ?wd" "?wd < 7"
    using weekdayOf_range [of e t] by simp_all
  have k: "0 \<le> ?k" "?k \<le> 6"
    using r by auto
  have "weekdayOf e (t + (- ?k) * msPerDay) = (?wd + (- ?k)) mod 7"
    by (rule weekdayOf_shift)
  moreover have "(?wd + (- ?k)) mod 7 = 1"
    using r by auto
  ultimately have mon: "weekdayOf e (t - ?k * msPerDay) = 1"
    by simp
  have we: "getWeekEnd e a = Some (t - ?k * msPerDay + 6 * msPerDay)"
    using ws setDate_getDate [of e "t - ?k * msPerDay" 6]
    by (simp add: getWeekEnd_def Let_def)
  have "weekdayOf e (t - ?k * msPerDay + 6 * msPerDay) = (1 + 6) mod 7"
    using weekdayOf_shift [of e "t - ?k * msPerDay" 6] mon by simp
  then have sun: "weekdayOf e (t - ?k * msPerDay + 6 * msPerDay) = 0"
    by simp
  have le1: "t - ?k * msPerDay \<le> t"
    using k by (simp add: msPerDay_def)
  have le2: "t \<le> t - ?k * msPerDay + 6 * msPerDay"
    using k by (simp add: msPerDay_def)
  show ?thesis
    using ws we mon sun le1 le2
    by (simp add: getDay_def weekdayOf_def date_le_def addDays_valid)
qed

text \<open>
  Wednesday 10 January 2024, noon UTC: the week starts on Monday 8 January at noon and
  ends on Sunday 14 January at noon.
\<close>

theorem getWeekStart_monday_witness:
  "newDate utcEnv (DateObj (Some 1704888000000)) = Some 1704888000000
   \<and> weekdayOf utcEnv 1704888000000 = 3
   \<and> getWeekStart utcEnv (DateObj (Some 1704888000000)) = Some 1704715200000
   \<and> getWeekEnd utcEnv (DateObj (Some 1704888000000)) = Some 1705233600000
   \<and> getDay utcEnv (getWeekStart utcEnv (DateObj (Some 1704888000000))) = Some 1"
proof -
  have h: "newDate utcEnv (DateObj (Some 1704888000000)) = Some 1704888000000"
    by simp
  have w: "weekdayOf utcEnv 1704888000000 = 3"
    by (simp add: weekdayOf_def utcEnv_def LocalTime_def WeekDay_def Day_def msPerDay_def)
  show ?thesis
    using getWeekStart_monday [OF h] w
    by (auto simp: addDays_valid msPerDay_def)
qed

section \<open>The PIN\<close>

text \<open>
  Claim C9. A PIN of fewer than 4 characters is answered with the object
  \<open>{success: false, error: ...}\<close> and the store is returned as it was; nothing is
  thrown. A PIN of 4 characters or more has its hash stored under the PIN key and is
  answered with \<open>{success: true}\<close>.
\<close>

theorem setPin_validation:
  "(length pin < 4 \<longrightarrow>
      setPin pin ls = ([''success'' \<mapsto> JBool False,
                        ''error'' \<mapsto> JStr ''PIN must be at least 4 characters''], ls)
      \<and> PIN_HASH (snd (setPin pin ls)) = PIN_HASH ls)
   \<and> (4 \<le> length pin \<longrightarrow>
      fst (setPin pin ls) = [''success'' \<mapsto> JBool True]
      \<and> snd (setPin pin ls) = ls\<lparr>PIN_HASH := Some (hashPin pin)\<rparr>
      \<and> PIN_HASH (snd (setPin pin ls)) = Some (hashPin pin))"
  by (simp add: setPin_def Let_def)

theorem setPin_validation_witness:
  "length [49, 50, 51 :: 16 word] < 4
   \<and> fst (setPin [49, 50, 51] emptyStorage) ''success'' = Some (JBool False)
   \<and> PIN_HASH (snd (setPin [49, 50, 51] emptyStorage)) = None
   \<and> 4 \<le> length [49, 50, 51, 52 :: 16 word]
   \<and> fst (setPin [49, 50, 51, 52] emptyStorage) ''success'' = Some (JBool True)
   \<and> PIN_HASH (snd (setPin [49, 50, 51, 52] emptyStorage)) = Some ''cf_wcoy_4''"
  using setPin_validation [of "[49, 50, 51]" emptyStorage]
    setPin_validation [of "[49, 50, 51, 52]" emptyStorage] hashPin_1234
  by (simp add: emptyStorage_def)

section \<open>Settings\<close>

text \<open>
  Claim C6. With no settings saved \<open>getSettings\<close> is \<open>{calorieGoal: 2000, weightUnit: 'kg'}\<close>.
  After \<open>saveSettings\<close> the settings are the earlier ones (or the defaults) overridden
  by the update: a key the update does not have keeps its value, a key of the update has
  the update's value, and no key is lost. After \<open>saveSettings({calorieGoal: 1800})\<close> on
  an empty store \<open>weightUnit\<close> is still \<open>'kg'\<close>.
\<close>

theorem settings_merge:
  "(SETTINGS ls = None \<longrightarrow>
      getSettings ls = [''calorieGoal'' \<mapsto> JNum 2000, ''weightUnit'' \<mapsto> JStr ''kg''])
   \<and> getSettings (saveSettings settings ls) = getSettings ls ++ settings
   \<and> (\<forall>k. settings k = None \<longrightarrow> getSettings (saveSettings settings ls) k = getSettings ls k)
   \<and> (\<forall>k v. settings k = Some v \<longrightarrow> getSettings (saveSettings settings ls) k = Some v)
   \<and> (\<forall>k. getSettings ls k \<noteq> None \<longrightarrow> getSettings (saveSettings settings ls) k \<noteq> None)
   \<and> getSettings (saveSettings [''calorieGoal'' \<mapsto> JNum 1800] emptyStorage) ''weightUnit''
       = Some (JStr ''kg'')
   \<and> getSettings (saveSettings [''calorieGoal'' \<mapsto> JNum 1800] emptyStorage) ''calorieGoal''
       = Some (JNum 1800)"
  by (auto simp: getSettings_def saveSettings_def Let_def emptyStorage_def map_add_def
      split: option.splits)

theorem settings_merge_witness:
  "SETTINGS emptyStorage = None
   \<and> getSettings emptyStorage ''calorieGoal'' = Some (JNum 2000)
   \<and> getSettings emptyStorage ''weightUnit'' = Some (JStr ''kg'')
   \<and> getSettings (saveSettings [''weightUnit'' \<mapsto> JStr ''lb''] emptyStorage) ''calorieGoal''
       = Some (JNum 2000)
   \<and> getSettings (saveSettings [''weightUnit'' \<mapsto> JStr ''lb''] emptyStorage) ''weightUnit''
       = Some (JStr ''lb'')"
  using settings_merge [of emptyStorage "[''weightUnit'' \<mapsto> JStr ''lb'']"]
  by (simp add: emptyStorage_def)

section \<open>Update and delete\<close>

text \<open>
  Claim C5. When an entry (or recipe) has the given \<open>id\<close>, the first such record is
  replaced by the record overridden with the updates, which is also the result: a key of
  the updates has the updates' value, every other key keeps the record's. When no record
  has the \<open>id\<close> the result is \<open>null\<close> and the store is returned as it was. The
  collection is the one read from the store: the list under the key, and no record when
  the key was never written.
\<close>

theorem update_merges:
  "(findIndex (\<lambda>e. e ''id'' = Some id') (getFoodEntries ls) = Some i \<longrightarrow>
      i < length (getFoodEntries ls) \<and> (getFoodEntries ls ! i) ''id'' = Some id'
      \<and> updateFoodEntry id' updates ls
          = (Some (getFoodEntries ls ! i ++ updates),
             ls\<lparr>FOOD_ENTRIES := Some ((getFoodEntries ls)[i := getFoodEntries ls ! i ++ updates])\<rparr>))
   \<and> ((\<exists>x\<in>set (getFoodEntries ls). x ''id'' = Some id') \<longrightarrow>
      fst (updateFoodEntry id' updates ls) \<noteq> None)
   \<and> ((\<forall>x\<in>set (getFoodEntries ls). x ''id'' \<noteq> Some id') \<longrightarrow>
      updateFoodEntry id' updates ls = (None, ls))
   \<and> (findIndex (\<lambda>r. r ''id'' = Some id') (getRecipes ls) = Some i \<longrightarrow>
      i < length (getRecipes ls) \<and> (getRecipes ls ! i) ''id'' = Some id'
      \<and> updateRecipe id' updates ls
          = (Some (getRecipes ls ! i ++ updates),
             ls\<lparr>RECIPES := Some ((getRecipes ls)[i := getRecipes ls ! i ++ updates])\<rparr>))
   \<and> ((\<exists>x\<in>set (getRecipes ls). x ''id'' = Some id') \<longrightarrow>
      fst (updateRecipe id' updates ls) \<noteq> None)
   \<and> ((\<forall>x\<in>set (getRecipes ls). x ''id'' \<noteq> Some id') \<longrightarrow>
      updateRecipe id' updates ls = (None, ls))
   \<and> (\<forall>k v. updates k = Some v \<longrightarrow> (x ++ updates) k = Some v)
   \<and> (\<forall>k. updates k = None \<longrightarrow> (x ++ updates) k = x k)
   \<and> (FOOD_ENTRIES ls = Some es \<and> findIndex (\<lambda>e. e ''id'' = Some id') es = Some i \<longrightarrow>
      i < length es \<and> (es ! i) ''id'' = Some id' \<and> (\<forall>j<i. (es ! j) ''id'' \<noteq> Some id')
      \<and> updateFoodEntry id' updates ls
          = (Some (es ! i ++ updates), ls\<lparr>FOOD_ENTRIES := Some (es[i := es ! i ++ updates])\<rparr>))
   \<and> (FOOD_ENTRIES ls = Some es \<and> (\<exists>x\<in>set es. x ''id'' = Some id') \<longrightarrow>
      fst (updateFoodEntry id' updates ls) \<noteq> None)
   \<and> (FOOD_ENTRIES ls = Some es \<and> (\<forall>x\<in>set es. x ''id'' \<noteq> Some id') \<longrightarrow>
      updateFoodEntry id' updates ls = (None, ls))
   \<and> (FOOD_ENTRIES ls = None \<longrightarrow> updateFoodEntry id' updates ls = (None, ls))
   \<and> (RECIPES ls = Some rs \<and> findIndex (\<lambda>r. r ''id'' = Some id') rs = Some i \<longrightarrow>
      i < length rs \<and> (rs ! i) ''id'' = Some id' \<and> (\<forall>j<i. (rs ! j) ''id'' \<noteq> Some id')
      \<and> updateRecipe id' updates ls
          = (Some (rs ! i ++ updates), ls\<lparr>RECIPES := Some (rs[i := rs ! i ++ updates])\<rparr>))
   \<and> (RECIPES ls = Some rs \<and> (\<exists>x\<in>set rs. x ''id'' = Some id') \<longrightarrow>
      fst (updateRecipe id' updates ls) \<noteq> None)
   \<and> (RECIPES ls = Some rs \<and> (\<forall>x\<in>set rs. x ''id'' \<noteq> Some id') \<longrightarrow>
      updateRecipe id' updates ls = (None, ls))
   \<and> (RECIPES ls = None \<longrightarrow> updateRecipe id' updates ls = (None, ls))"
proof -
  have f1: "findIndex (\<lambda>e. e ''id'' = Some id') (getFoodEntries ls) = Some i \<longrightarrow>
      i < length (getFoodEntries ls) \<and> (getFoodEntries ls ! i) ''id'' = Some id'
      \<and> updateFoodEntry id' updates ls
          = (Some (getFoodEntries ls ! i ++ updates),
             ls\<lparr>FOOD_ENTRIES := Some ((getFoodEntries ls)[i := getFoodEntries ls ! i ++ updates])\<rparr>)"
    using findIndex_Some [of "\<lambda>e. e ''id'' = Some id'" "getFoodEntries ls" i]
    by (simp add: updateFoodEntry_def Let_def)
  have f2: "(\<exists>x\<in>set (getFoodEntries ls). x ''id'' = Some id') \<longrightarrow>
      fst (updateFoodEntry id' updates ls) \<noteq> None"
    using findIndex_None [of "\<lambda>e. e ''id'' = Some id'" "getFoodEntries ls"]
    by (auto simp: updateFoodEntry_def Let_def split: option.splits)
  have f3: "(\<forall>x\<in>set (getFoodEntries ls). x ''id'' \<noteq> Some id') \<longrightarrow>
      updateFoodEntry id' updates ls = (None, ls)"
    using findIndex_None [of "\<lambda>e. e ''id'' = Some id'" "getFoodEntries ls"]
    by (auto simp: updateFoodEntry_def Let_def split: option.splits)
  have r1: "findIndex (\<lambda>r. r ''id'' = Some id') (getRecipes ls) = Some i \<longrightarrow>
      i < length (getRecipes ls) \<and> (getRecipes ls ! i) ''id'' = Some id'
      \<and> updateRecipe id' updates ls
          = (Some (getRecipes ls ! i ++ updates),
             ls\<lparr>RECIPES := Some ((getRecipes ls)[i := getRecipes ls ! i ++ updates])\<rparr>)"
    using findIndex_Some [of "\<lambda>e. e ''id'' = Some id'" "getRecipes ls" i]
    by (simp add: updateRecipe_def Let_def)
  have r2: "(\<exists>x\<in>set (getRecipes ls). x ''id'' = Some id') \<longrightarrow>
      fst (updateRecipe id' updates ls) \<noteq> None"
    using findIndex_None [of "\<lambda>e. e ''id'' = Some id'" "getRecipes ls"]
    by (auto simp: updateRecipe_def Let_def split: option.splits)
  have r3: "(\<forall>x\<in>set (getRecipes ls). x ''id'' \<noteq> Some id') \<longrightarrow>
      updateRecipe id' updates ls = (None, ls)"
    using findIndex_None [of "\<lambda>e. e ''id'' = Some id'" "getRecipes ls"]
    by (auto simp: updateRecipe_def Let_def split: option.splits)
  have m1: "\<forall>k v. updates k = Some v \<longrightarrow> (x ++ updates) k = Some v"
    by (simp add: map_add_def)
  have m2: "\<forall>k. updates k = None \<longrightarrow> (x ++ updates) k = x k"
    by (simp add: map_add_def)
  have g1: "FOOD_ENTRIES ls = Some es \<and> findIndex (\<lambda>e. e ''id'' = Some id') es = Some i \<longrightarrow>
      i < length es \<and> (es ! i) ''id'' = Some id' \<and> (\<forall>j<i. (es ! j) ''id'' \<noteq> Some id')
      \<and> updateFoodEntry id' updates ls
          = (Some (es ! i ++ updates), ls\<lparr>FOOD_ENTRIES := Some (es[i := es ! i ++ updates])\<rparr>)"
    using findIndex_Some [of "\<lambda>e. e ''id'' = Some id'" es i]
    by (simp add: updateFoodEntry_def getFoodEntries_def Let_def)
  have g2: "FOOD_ENTRIES ls = Some es \<and> (\<exists>x\<in>set es. x ''id'' = Some id') \<longrightarrow>
      fst (updateFoodEntry id' updates ls) \<noteq> None"
    using f2 by (auto simp: getFoodEntries_def)
  have g3: "FOOD_ENTRIES ls = Some es \<and> (\<forall>x\<in>set es. x ''id'' \<noteq> Some id') \<longrightarrow>
      updateFoodEntry id' updates ls = (None, ls)"
    using f3 by (auto simp: getFoodEntries_def)
  have g4: "FOOD_ENTRIES ls = None \<longrightarrow> updateFoodEntry id' updates ls = (None, ls)"
    by (simp add: updateFoodEntry_def getFoodEntries_def)
  have s1: "RECIPES ls = Some rs \<and> findIndex (\<lambda>r. r ''id'' = Some id') rs = Some i \<longrightarrow>
      i < length rs \<and> (rs ! i) ''id'' = Some id' \<and> (\<forall>j<i. (rs ! j) ''id'' \<noteq> Some id')
      \<and> updateRecipe id' updates ls
          = (Some (rs ! i ++ updates), ls\<lparr>RECIPES := Some (rs[i := rs ! i ++ updates])\<rparr>)"
    using findIndex_Some [of "\<lambda>e. e ''id'' = Some id'" rs i]
    by (simp add: updateRecipe_def getRecipes_def Let_def)
  have s2: "RECIPES ls = Some rs \<and> (\<exists>x\<in>set rs. x ''id'' = Some id') \<longrightarrow>
      fst (updateRecipe id' updates ls) \<noteq> None"
    using r2 by (auto simp: getRecipes_def)
  have s3: "RECIPES ls = Some rs \<and> (\<forall>x\<in>set rs. x ''id'' \<noteq> Some id') \<longrightarrow>
      updateRecipe id' updates ls = (None, ls)"
    using r3 by (auto simp: getRecipes_def)
  have s4: "RECIPES ls = None \<longrightarrow> updateRecipe id' updates ls = (None, ls)"
    by (simp add: updateRecipe_def getRecipes_def)
  from f1 f2 f3 r1 r2 r3 m1 m2 g1 g2 g3 g4 s1 s2 s3 s4 show ?thesis
    by (intro conjI)
qed

text \<open>
  In a store with the entries 1 (Egg) and 2 (Toast), the update of 2 returns the Toast
  with the new calories and an update of 3 returns \<open>null\<close>. In a store with the recipes
  11 (Soup) and 12 (Salad), the update of 12 returns the Salad with the new calories, its
  name and image kept, and stores it in second place after the unchanged Soup; an update
  of 13 returns \<open>null\<close>, and so does every update when the recipes were never written.
\<close>

theorem update_merges_witness:
  "findIndex (\<lambda>e. e ''id'' = Some (JStr ''2'')) (getFoodEntries exampleStore) = Some 1
   \<and> map_option (\<lambda>x. (x ''id'', x ''name'', x ''calories''))
        (fst (updateFoodEntry (JStr ''2'') [''calories'' \<mapsto> JNum 99] exampleStore))
      = Some (Some (JStr ''2''), Some (JStr ''Toast''), Some (JNum 99))
   \<and> updateFoodEntry (JStr ''3'') [''calories'' \<mapsto> JNum 99] exampleStore = (None, exampleStore)
   \<and> updateRecipe (JStr ''2'') [''calories'' \<mapsto> JNum 99] exampleStore = (None, exampleStore)
   \<and> RECIPES recipeStore = Some exampleRecipes
   \<and> findIndex (\<lambda>r. r ''id'' = Some (JStr ''12'')) exampleRecipes = Some 1
   \<and> map_option (\<lambda>x. (x ''id'', x ''name'', x ''calories'', x ''image''))
        (fst (updateRecipe (JStr ''12'') [''calories'' \<mapsto> JStr ''200''] recipeStore))
      = Some (Some (JStr ''12''), Some (JStr ''Salad''), Some (JStr ''200''), Some JNull)
   \<and> map (\<lambda>x. (x ''id'', x ''name'', x ''calories''))
        (getRecipes (snd (updateRecipe (JStr ''12'') [''calories'' \<mapsto> JStr ''200''] recipeStore)))
      = [(Some (JStr ''11''), Some (JStr ''Soup''), Some (JStr ''250'')),
         (Some (JStr ''12''), Some (JStr ''Salad''), Some (JStr ''200''))]
   \<and> updateRecipe (JStr ''13'') [''calories'' \<mapsto> JStr ''200''] recipeStore = (None, recipeStore)"
proof -
  have i: "findIndex (\<lambda>e. e ''id'' = Some (JStr ''2'')) (getFoodEntries exampleStore) = Some 1"
    by (simp add: exampleStore_def exampleFoods_def getFoodEntries_def emptyStorage_def)
  have n: "\<forall>x\<in>set (getFoodEntries exampleStore). x ''id'' \<noteq> Some (JStr ''3'')"
    by (simp add: exampleStore_def exampleFoods_def getFoodEntries_def emptyStorage_def)
  have r: "RECIPES exampleStore = None"
    by (simp add: exampleStore_def emptyStorage_def)
  have e: "getFoodEntries exampleStore = exampleFoods"
    by (simp add: exampleStore_def getFoodEntries_def emptyStorage_def)
  have k: "RECIPES recipeStore = Some exampleRecipes"
    by (simp add: recipeStore_def emptyStorage_def)
  have j: "findIndex (\<lambda>r. r ''id'' = Some (JStr ''12'')) exampleRecipes = Some 1"
    by (simp add: exampleRecipes_def)
  have a: "\<forall>x\<in>set exampleRecipes. x ''id'' \<noteq> Some (JStr ''13'')"
    by (simp add: exampleRecipes_def)
  from update_merges [of "JStr ''2''" exampleStore 1 "[''calories'' \<mapsto> JNum 99]"] i
  have u: "updateFoodEntry (JStr ''2'') [''calories'' \<mapsto> JNum 99] exampleStore
          = (Some (getFoodEntries exampleStore ! 1 ++ [''calories'' \<mapsto> JNum 99]),
             exampleStore\<lparr>FOOD_ENTRIES := Some ((getFoodEntries exampleStore)
                [1 := getFoodEntries exampleStore ! 1 ++ [''calories'' \<mapsto> JNum 99]])\<rparr>)"
    by blast
  from update_merges [of "JStr ''3''" exampleStore 0 "[''calories'' \<mapsto> JNum 99]"] n
  have v: "updateFoodEntry (JStr ''3'') [''calories'' \<mapsto> JNum 99] exampleStore = (None, exampleStore)"
    by blast
  from update_merges [of "JStr ''2''" exampleStore 0 "[''calories'' \<mapsto> JNum 99]"] r
  have w: "updateRecipe (JStr ''2'') [''calories'' \<mapsto> JNum 99] exampleStore = (None, exampleStore)"
    by blast
  from update_merges [of "JStr ''12''" recipeStore 1 "[''calories'' \<mapsto> JStr ''200'']" _ _
      exampleRecipes] k j
  have p: "updateRecipe (JStr ''12'') [''calories'' \<mapsto> JStr ''200''] recipeStore
          = (Some (exampleRecipes ! 1 ++ [''calories'' \<mapsto> JStr ''200'']),
             recipeStore\<lparr>RECIPES := Some (exampleRecipes
                [1 := exampleRecipes ! 1 ++ [''calories'' \<mapsto> JStr ''200'']])\<rparr>)"
    by blast
  from update_merges [of "JStr ''13''" recipeStore 0 "[''calories'' \<mapsto> JStr ''200'']" _ _
      exampleRecipes] k a
  have q: "updateRecipe (JStr ''13'') [''calories'' \<mapsto> JStr ''200''] recipeStore = (None, recipeStore)"
    by blast
  have p1: "map_option (\<lambda>x. (x ''id'', x ''name'', x ''calories'', x ''image''))
        (fst (updateRecipe (JStr ''12'') [''calories'' \<mapsto> JStr ''200''] recipeStore))
      = Some (Some (JStr ''12''), Some (JStr ''Salad''), Some (JStr ''200''), Some JNull)"
    by (simp add: p exampleRecipes_def)
  have p2: "map (\<lambda>x. (x ''id'', x ''name'', x ''calories''))
        (getRecipes (snd (updateRecipe (JStr ''12'') [''calories'' \<mapsto> JStr ''200''] recipeStore)))
      = [(Some (JStr ''11''), Some (JStr ''Soup''), Some (JStr ''250'')),
         (Some (JStr ''12''), Some (JStr ''Salad''), Some (JStr ''200''))]"
    by (simp add: p getRecipes_def exampleRecipes_def)
  have f: "map_option (\<lambda>x. (x ''id'', x ''name'', x ''calories''))
        (fst (updateFoodEntry (JStr ''2'') [''calories'' \<mapsto> JNum 99] exampleStore))
      = Some (Some (JStr ''2''), Some (JStr ''Toast''), Some (JNum 99))"
    by (simp add: u e exampleFoods_def)
  from i f v w k j p1 p2 q show ?thesis
    by (intro conjI)
qed

text \<open>
  Claim C8. A delete always answers \<open>true\<close>. When no record has the \<open>id\<close> the
  collection read back is the one before (the key holds it, also when the key was never
  written and the collection was empty). Deleting the same \<open>id\<close> a second time leaves
  the store of the first delete.
\<close>

theorem delete_idempotent:
  "fst (deleteFoodEntry id' ls) = True
   \<and> fst (deleteWeightEntry id' ls) = True
   \<and> fst (deleteRecipe id' ls) = True
   \<and> ((\<forall>x\<in>set (getFoodEntries ls). x ''id'' \<noteq> Some id') \<longrightarrow>
        getFoodEntries (snd (deleteFoodEntry id' ls)) = getFoodEntries ls
        \<and> snd (deleteFoodEntry id' ls) = ls\<lparr>FOOD_ENTRIES := Some (getFoodEntries ls)\<rparr>)
   \<and> ((\<forall>x\<in>set (getWeightEntries ls). x ''id'' \<noteq> Some id') \<longrightarrow>
        getWeightEntries (snd (deleteWeightEntry id' ls)) = getWeightEntries ls
        \<and> snd (deleteWeightEntry id' ls) = ls\<lparr>WEIGHT_ENTRIES := Some (getWeightEntries ls)\<rparr>)
   \<and> ((\<forall>x\<in>set (getRecipes ls). x ''id'' \<noteq> Some id') \<longrightarrow>
        getRecipes (snd (deleteRecipe id' ls)) = getRecipes ls
        \<and> snd (deleteRecipe id' ls) = ls\<lparr>RECIPES := Some (getRecipes ls)\<rparr>)
   \<and> snd (deleteFoodEntry id' (snd (deleteFoodEntry id' ls))) = snd (deleteFoodEntry id' ls)
   \<and> snd (deleteWeightEntry id' (snd (deleteWeightEntry id' ls))) = snd (deleteWeightEntry id' ls)
   \<and> snd (deleteRecipe id' (snd (deleteRecipe id' ls))) = snd (deleteRecipe id' ls)"
proof -
  have flt: "\<And>xs :: obj list. (\<forall>x\<in>set xs. x ''id'' \<noteq> Some id') \<Longrightarrow>
               filter (\<lambda>e. e ''id'' \<noteq> Some id') xs = xs"
    by (simp add: filter_id_conv)
  have a: "(\<forall>x\<in>set (getFoodEntries ls). x ''id'' \<noteq> Some id') \<longrightarrow>
        getFoodEntries (snd (deleteFoodEntry id' ls)) = getFoodEntries ls
        \<and> snd (deleteFoodEntry id' ls) = ls\<lparr>FOOD_ENTRIES := Some (getFoodEntries ls)\<rparr>"
    using flt [of "getFoodEntries ls"]
    by (simp add: deleteFoodEntry_def Let_def getFoodEntries_def)
  have b: "(\<forall>x\<in>set (getWeightEntries ls). x ''id'' \<noteq> Some id') \<longrightarrow>
        getWeightEntries (snd (deleteWeightEntry id' ls)) = getWeightEntries ls
        \<and> snd (deleteWeightEntry id' ls) = ls\<lparr>WEIGHT_ENTRIES := Some (getWeightEntries ls)\<rparr>"
    using flt [of "getWeightEntries ls"]
    by (simp add: deleteWeightEntry_def Let_def getWeightEntries_def)
  have c: "(\<forall>x\<in>set (getRecipes ls). x ''id'' \<noteq> Some id') \<longrightarrow>
        getRecipes (snd (deleteRecipe id' ls)) = getRecipes ls
        \<and> snd (deleteRecipe id' ls) = ls\<lparr>RECIPES := Some (getRecipes ls)\<rparr>"
    using flt [of "getRecipes ls"]
    by (simp add: deleteRecipe_def Let_def getRecipes_def)
  have d: "snd (deleteFoodEntry id' (snd (deleteFoodEntry id' ls))) = snd (deleteFoodEntry id' ls)"
    by (simp add: deleteFoodEntry_def Let_def getFoodEntries_def)
  have e: "snd (deleteWeightEntry id' (snd (deleteWeightEntry id' ls))) = snd (deleteWeightEntry id' ls)"
    by (simp add: deleteWeightEntry_def Let_def getWeightEntries_def)
  have f: "snd (deleteRecipe id' (snd (deleteRecipe id' ls))) = snd (deleteRecipe id' ls)"
    by (simp add: deleteRecipe_def Let_def getRecipes_def)
  have t: "fst (deleteFoodEntry id' ls) = True \<and> fst (deleteWeightEntry id' ls) = True
           \<and> fst (deleteRecipe id' ls) = True"
    by (simp add: deleteFoodEntry_def deleteWeightEntry_def deleteRecipe_def Let_def)
  from a b c d e f t show ?thesis by blast
qed

theorem delete_idempotent_witness:
  "(getFoodEntries exampleStore = exampleFoods)
   \<and> fst (deleteFoodEntry (JStr ''3'') exampleStore) = True
   \<and> getFoodEntries (snd (deleteFoodEntry (JStr ''3'') exampleStore)) = exampleFoods
   \<and> getRecipes (snd (deleteRecipe (JStr ''3'') exampleStore)) = []
   \<and> length (getFoodEntries (snd (deleteFoodEntry (JStr ''1'') exampleStore))) = 1
   \<and> snd (deleteFoodEntry (JStr ''1'') (snd (deleteFoodEntry (JStr ''1'') exampleStore)))
       = snd (deleteFoodEntry (JStr ''1'') exampleStore)"
proof -
  have g: "getFoodEntries exampleStore = exampleFoods"
    by (simp add: exampleStore_def getFoodEntries_def emptyStorage_def)
  have n: "\<forall>x\<in>set (getFoodEntries exampleStore). x ''id'' \<noteq> Some (JStr ''3'')"
    by (simp add: g exampleFoods_def)
  have r: "\<forall>x\<in>set (getRecipes exampleStore). x ''id'' \<noteq> Some (JStr ''3'')"
    by (simp add: exampleStore_def getRecipes_def emptyStorage_def)
  have gr: "getRecipes exampleStore = []"
    by (simp add: exampleStore_def getRecipes_def emptyStorage_def)
  have one: "length (getFoodEntries (snd (deleteFoodEntry (JStr ''1'') exampleStore))) = 1"
    using g by (simp add: deleteFoodEntry_def Let_def exampleFoods_def getFoodEntries_def)
  from delete_idempotent [of "JStr ''3''" exampleStore] n r
  have "getFoodEntries (snd (deleteFoodEntry (JStr ''3'') exampleStore)) = getFoodEntries exampleStore"
    and "getRecipes (snd (deleteRecipe (JStr ''3'') exampleStore)) = getRecipes exampleStore"
    and "fst (deleteFoodEntry (JStr ''3'') exampleStore) = True"
    by blast+
  moreover from delete_idempotent [of "JStr ''1''" exampleStore]
  have "snd (deleteFoodEntry (JStr ''1'') (snd (deleteFoodEntry (JStr ''1'') exampleStore)))
       = snd (deleteFoodEntry (JStr ''1'') exampleStore)"
    by blast
  ultimately show ?thesis
    using g gr one by simp
qed

section \<open>Date ranges\<close>

lemma range_filter:
  "getFoodEntriesByDateRange e a b ls
   = (case newDate e a of None \<Rightarrow> []
      | Some ta \<Rightarrow> (case newDate e b of None \<Rightarrow> []
          | Some tb \<Rightarrow> filter (datedWithin e (localMidnight e ta) (localDayEnd e tb))
                         (getFoodEntries ls)))"
proof (cases "newDate e a")
  case None
  then show ?thesis
    by (simp add: getFoodEntriesByDateRange_def Let_def setHours_def date_ge_def
        split: option.splits)
next
  case (Some ta)
  show ?thesis
  proof (cases "newDate e b")
    case None
    then show ?thesis
      using Some
      by (simp add: getFoodEntriesByDateRange_def Let_def setHours_def date_le_def
          split: option.splits)
  next
    case (Some tb)
    have "\<And>x. (date_ge (newDate e (DateVal (x ''date''))) (Some (localMidnight e ta))
               \<and> date_le (newDate e (DateVal (x ''date''))) (Some (localDayEnd e tb)))
              = datedWithin e (localMidnight e ta) (localDayEnd e tb) x"
      by (simp add: datedWithin_def dateOf_def date_ge_def date_le_def split: option.splits)
    then show ?thesis
      using Some \<open>newDate e a = Some ta\<close>
      by (simp add: getFoodEntriesByDateRange_def Let_def setHours_start setHours_end)
  qed
qed

text \<open>
  Claim C3. For valid \<open>start\<close> and \<open>end\<close>, \<open>getFoodEntriesByDateRange\<close> returns, in
  their stored order, exactly the entries whose date lies between 00:00:00.000 local time
  of the day of \<open>start\<close> and 23:59:59.999 local time of the day of \<open>end\<close>, both
  included. When \<open>start \<le> end\<close>, an entry dated exactly \<open>start\<close> or exactly \<open>end\<close> is
  returned; an entry dated one day before \<open>start\<close> or one day after \<open>end\<close> is not.
\<close>

theorem range_inclusive:
  assumes "newDate e a = Some ta" and "newDate e b = Some tb"
  shows "getFoodEntriesByDateRange e a b ls
           = filter (datedWithin e (localMidnight e ta) (localDayEnd e tb)) (getFoodEntries ls)
         \<and> (ta \<le> tb \<longrightarrow>
              (\<forall>x\<in>set (getFoodEntries ls).
                 (dateOf e x = newDate e a \<longrightarrow> x \<in> set (getFoodEntriesByDateRange e a b ls))
                 \<and> (dateOf e x = newDate e b \<longrightarrow> x \<in> set (getFoodEntriesByDateRange e a b ls))))
         \<and> (\<forall>x. dateOf e x = addDays e a (- 1) \<longrightarrow> x \<notin> set (getFoodEntriesByDateRange e a b ls))
         \<and> (\<forall>x. dateOf e x = addDays e b 1 \<longrightarrow> x \<notin> set (getFoodEntriesByDateRange e a b ls))"
proof -
  let ?lo = "localMidnight e ta" and ?hi = "localDayEnd e tb"
  have f: "getFoodEntriesByDateRange e a b ls
           = filter (datedWithin e ?lo ?hi) (getFoodEntries ls)"
    using assms by (simp add: range_filter)
  have before: "addDays e a (- 1) = Some (ta - msPerDay)"
    using assms(1) setDate_getDate [of e ta "- 1"] by (simp add: addDays_def)
  have after: "addDays e b 1 = Some (tb + msPerDay)"
    using assms(2) setDate_getDate [of e tb 1] by (simp add: addDays_def)
  have lo: "?lo \<le> ta" by (rule localMidnight_le)
  have hi: "tb \<le> ?hi" by (rule localDayEnd_ge)
  have out1: "ta - msPerDay < ?lo"
    using localMidnight_gt [of ta e] by simp
  have out2: "?hi < tb + msPerDay"
    using localMidnight_le [of e tb] by (simp add: localDayEnd_def msPerDay_def)
  have incl: "ta \<le> tb \<longrightarrow>
              (\<forall>x\<in>set (getFoodEntries ls).
                 (dateOf e x = newDate e a \<longrightarrow> x \<in> set (getFoodEntriesByDateRange e a b ls))
                 \<and> (dateOf e x = newDate e b \<longrightarrow> x \<in> set (getFoodEntriesByDateRange e a b ls)))"
    using assms lo hi by (auto simp: f datedWithin_def)
  have excl1: "\<forall>x. dateOf e x = addDays e a (- 1) \<longrightarrow> x \<notin> set (getFoodEntriesByDateRange e a b ls)"
    using out1 by (auto simp: f before datedWithin_def)
  have excl2: "\<forall>x. dateOf e x = addDays e b 1 \<longrightarrow> x \<notin> set (getFoodEntriesByDateRange e a b ls)"
    using out2 by (auto simp: f after datedWithin_def)
  from f incl excl1 excl2 show ?thesis by blast
qed

text \<open>
  Entries on 9, 10, 12 and 13 January; the range from \<open>2024-01-10\<close> to \<open>2024-01-12\<close>
  returns the second and the third.
\<close>

theorem range_inclusive_witness:
  "newDate utcEnv (DateVal (Some (JStr ''2024-01-10''))) = Some 1704844800000
   \<and> newDate utcEnv (DateVal (Some (JStr ''2024-01-12''))) = Some 1705017600000
   \<and> map (\<lambda>x. x ''name'')
        (getFoodEntriesByDateRange utcEnv (DateVal (Some (JStr ''2024-01-10'')))
           (DateVal (Some (JStr ''2024-01-12''))) rangeStore)
      = [Some (JStr ''b''), Some (JStr ''c'')]"
proof -
  have a: "newDate utcEnv (DateVal (Some (JStr ''2024-01-10''))) = Some 1704844800000"
    by (simp add: eval_simps)
  have b: "newDate utcEnv (DateVal (Some (JStr ''2024-01-12''))) = Some 1705017600000"
    by (simp add: eval_simps)
  have "getFoodEntriesByDateRange utcEnv (DateVal (Some (JStr ''2024-01-10'')))
           (DateVal (Some (JStr ''2024-01-12''))) rangeStore
        = filter (datedWithin utcEnv (localMidnight utcEnv 1704844800000)
                    (localDayEnd utcEnv 1705017600000)) (getFoodEntries rangeStore)"
    using range_inclusive [OF a b, of rangeStore] by blast
  then show ?thesis
    using a b by (simp add: rangeStore_def eval_simps)
qed

section \<open>The monthly series\<close>

lemma monthData_bucket:
  "calculateTotalCalories e
     (getFoodEntriesByDateRange e (DateObj (addDays e (DateObj (Some now)) (- 7 * (w + 1))))
        (DateObj (addDays e (DateObj (addDays e (DateObj (Some now)) (- 7 * (w + 1)))) 6)) ls)
   = calculateTotalCalories e
       (filter (datedWithin e (localMidnight e now - 7 * (w + 1) * msPerDay)
                  (localMidnight e now - 7 * w * msPerDay - 1)) (getFoodEntries ls))"
proof -
  let ?s = "now + (- 7 * (w + 1)) * msPerDay"
  have a1: "addDays e (DateObj (Some now)) (- 7 * (w + 1)) = Some ?s"
    by (rule addDays_valid)
  have a2: "addDays e (DateObj (Some ?s)) 6 = Some (?s + 6 * msPerDay)"
    by (rule addDays_valid)
  have lo: "localMidnight e ?s = localMidnight e now - 7 * (w + 1) * msPerDay"
    using localMidnight_shift [of e now "- 7 * (w + 1)"] by (simp add: algebra_simps)
  have "localMidnight e (?s + 6 * msPerDay) = localMidnight e ?s + 6 * msPerDay"
    by (rule localMidnight_shift)
  then have hi: "localDayEnd e (?s + 6 * msPerDay) = localMidnight e now - 7 * w * msPerDay - 1"
    using lo by (simp add: localDayEnd_def msPerDay_def algebra_simps)
  show ?thesis
    by (simp only: a1 a2 range_filter newDate.simps option.case lo hi)
qed

text \<open>
  Claim C4, as the code has it. The monthly series has four buckets, oldest first. With
  \<open>M\<close> the local midnight that starts today, bucket \<open>k\<close> (from 0) is the total of the
  entries dated from \<open>M - (28 - 7k)\<close> days to one millisecond before \<open>M - (21 - 7k)\<close>
  days: four consecutive windows of 7 days, each read with the inclusive range query,
  the last of which ends with yesterday. Today is in no window: an entry dated now is in
  no bucket.
\<close>

theorem monthData_windows:
  "monthData e now ls
     = map (\<lambda>k. calculateTotalCalories e
                  (filter (datedWithin e (localMidnight e now - (28 - 7 * k) * msPerDay)
                             (localMidnight e now - (21 - 7 * k) * msPerDay - 1))
                     (getFoodEntries ls)))
           [0, 1, 2, 3]
   \<and> localMidnight e now - 1 < now
   \<and> (\<forall>x lo. dateOf e x = Some now \<longrightarrow> \<not> datedWithin e lo (localMidnight e now - 1) x)"
proof -
  have m: "localMidnight e now - 1 < now"
    using localMidnight_le [of e now] by simp
  have "monthData e now ls
     = map (\<lambda>w. calculateTotalCalories e
                  (filter (datedWithin e (localMidnight e now - 7 * (w + 1) * msPerDay)
                             (localMidnight e now - 7 * w * msPerDay - 1))
                     (getFoodEntries ls)))
           [3, 2, 1, 0]"
    unfolding monthData_def Let_def monthData_bucket ..
  then have "monthData e now ls
     = map (\<lambda>k. calculateTotalCalories e
                  (filter (datedWithin e (localMidnight e now - (28 - 7 * k) * msPerDay)
                             (localMidnight e now - (21 - 7 * k) * msPerDay - 1))
                     (getFoodEntries ls)))
           [0, 1, 2, 3]"
    by simp
  moreover have "\<forall>x lo. dateOf e x = Some now \<longrightarrow> \<not> datedWithin e lo (localMidnight e now - 1) x"
    using m by (simp add: datedWithin_def)
  ultimately show ?thesis
    using m by blast
qed

text \<open>
  On 13 January 2024 at noon, with entries of 100, 200, 300 and 400 on 9, 10, 12 and 13
  January: the last bucket is 600, the entry of the 13th is not counted.
\<close>

theorem monthData_windows_witness:
  "monthData utcEnv 1705147200000 rangeStore = [Finite 0, Finite 0, Finite 0, Finite 600]
   \<and> localMidnight utcEnv 1705147200000 = 1705104000000"
proof -
  have "monthData utcEnv 1705147200000 rangeStore
     = map (\<lambda>k. calculateTotalCalories utcEnv
                  (filter (datedWithin utcEnv (localMidnight utcEnv 1705147200000 - (28 - 7 * k) * msPerDay)
                             (localMidnight utcEnv 1705147200000 - (21 - 7 * k) * msPerDay - 1))
                     (getFoodEntries rangeStore)))
           [0, 1, 2, 3]"
    using monthData_windows [of utcEnv 1705147200000 rangeStore] by blast
  then show ?thesis
    by (simp add: rangeStore_def eval_simps calculateTotalCalories_def plainNumberToString_def
        natToString.simps digitChar_def toDouble_def)
qed

text \<open>
  The last window does not include today. On 10 January 2024 at noon, with one entry of
  500 dated that day (the range query for that day does return it): the last window ends
  before now, and all four buckets are 0.
\<close>

theorem monthData_today_counterexample:
  "getFoodEntriesByDateRange utcEnv (DateVal (Some (JStr ''2024-01-10'')))
       (DateVal (Some (JStr ''2024-01-10''))) todayStore \<noteq> []
   \<and> \<not> date_le (Some 1704888000000)
          (setHours utcEnv
             (addDays utcEnv (DateObj (addDays utcEnv (DateObj (Some 1704888000000)) (- 7 * (0 + 1)))) 6)
             23 59 59 999)
   \<and> monthData utcEnv 1704888000000 todayStore = [Finite 0, Finite 0, Finite 0, Finite 0]"
  by (simp add: monthData_def getFoodEntriesByDateRange_def addDays_valid setHours_def
      date_le_def date_ge_def todayStore_def eval_simps calculateTotalCalories_def)

section \<open>One weight entry per day\<close>

lemma stamped_date:
  "fst (saveWeightEntry e now entry0 ls) ''date'' = entry0 ''date''"
  by (simp add: saveWeightEntry_def Let_def)

lemma stamped_dayKey:
  "dayKey e (fst (saveWeightEntry e now entry0 ls)) = dayKey e entry0"
  by (simp add: dayKey_def dateOf_def stamped_date)

lemma saveWeightEntry_entries:
  "getWeightEntries (snd (saveWeightEntry e now entry0 ls))
   = jsSort (\<lambda>a b. num_sub (dateOf e a) (dateOf e b))
       (upsert e (fst (saveWeightEntry e now entry0 ls)) (getWeightEntries ls))"
  by (simp add: saveWeightEntry_def Let_def upsert_def dayKey_def getWeightEntries_def)

lemma merged_dayKey:
  assumes "dayKey e old = dayKey e entry"
  shows "dayKey e (old ++ entry) = dayKey e entry"
proof (cases "entry ''date''")
  case None
  then have "(old ++ entry) ''date'' = old ''date''"
    by (simp add: map_add_def)
  then show ?thesis
    using assms by (simp add: dayKey_def dateOf_def)
next
  case (Some v)
  then have "(old ++ entry) ''date'' = entry ''date''"
    by (simp add: map_add_def)
  then show ?thesis
    by (simp add: dayKey_def dateOf_def)
qed

lemma map_dayKey_upsert:
  "map (dayKey e) (upsert e entry entries)
   = (if dayKey e entry \<in> set (map (dayKey e) entries) then map (dayKey e) entries
      else map (dayKey e) entries @ [dayKey e entry])"
proof (cases "findIndex (\<lambda>x. dayKey e x = dayKey e entry) entries")
  case None
  then have "\<forall>x\<in>set entries. dayKey e x \<noteq> dayKey e entry"
    by (simp add: findIndex_None)
  then have "dayKey e entry \<notin> set (map (dayKey e) entries)"
    by auto
  then show ?thesis
    using None by (simp add: upsert_def)
next
  case (Some i)
  from findIndex_Some [OF Some]
  have i: "i < length entries" and k: "dayKey e (entries ! i) = dayKey e entry"
    by simp_all
  have "dayKey e (entries ! i ++ entry) = dayKey e (entries ! i)"
    using merged_dayKey [OF k] k by simp
  then have "map (dayKey e) (entries[i := entries ! i ++ entry]) = map (dayKey e) entries"
    using i by (simp add: map_update list_update_same_conv)
  moreover have "dayKey e entry \<in> set (map (dayKey e) entries)"
    using i k by (metis length_map nth_map nth_mem)
  ultimately show ?thesis
    using Some by (simp add: upsert_def)
qed

lemma distinct_upsert:
  "distinct (map (dayKey e) entries) \<Longrightarrow> distinct (map (dayKey e) (upsert e entry entries))"
  by (simp add: map_dayKey_upsert)

lemma save_keeps_distinct:
  "distinct (map (dayKey e) (getWeightEntries ls))
   \<Longrightarrow> distinct (map (dayKey e) (getWeightEntries (snd (saveWeightEntry e now entry0 ls))))"
  by (simp add: saveWeightEntry_entries distinct_map_jsSort distinct_upsert)

lemma delete_keeps_distinct:
  "distinct (map (dayKey e) (getWeightEntries ls))
   \<Longrightarrow> distinct (map (dayKey e) (getWeightEntries (snd (deleteWeightEntry id' ls))))"
  by (simp add: deleteWeightEntry_def Let_def getWeightEntries_def distinct_map_filter)

lemma applyWrite_keeps_distinct:
  "distinct (map (dayKey e) (getWeightEntries ls))
   \<Longrightarrow> distinct (map (dayKey e) (getWeightEntries (applyWrite e ls w)))"
  by (cases w) (simp_all add: save_keeps_distinct delete_keeps_distinct)

lemma applyWrites_keep_distinct:
  "distinct (map (dayKey e) (getWeightEntries ls))
   \<Longrightarrow> distinct (map (dayKey e) (getWeightEntries (applyWrites e ws ls)))"
  unfolding applyWrites_def
  by (induction ws arbitrary: ls) (simp_all add: applyWrite_keeps_distinct)

lemma save_same_day:
  assumes "\<exists>x\<in>set (getWeightEntries ls). dayKey e x = dayKey e entry0"
  shows "length (getWeightEntries (snd (saveWeightEntry e now entry0 ls)))
           = length (getWeightEntries ls)
         \<and> (\<exists>i<length (getWeightEntries ls).
               dayKey e (getWeightEntries ls ! i) = dayKey e entry0
               \<and> mset (getWeightEntries (snd (saveWeightEntry e now entry0 ls)))
                   = mset ((getWeightEntries ls)
                       [i := getWeightEntries ls ! i ++ fst (saveWeightEntry e now entry0 ls)]))"
proof -
  let ?entry = "fst (saveWeightEntry e now entry0 ls)"
  let ?es = "getWeightEntries ls"
  have "findIndex (\<lambda>x. dayKey e x = dayKey e ?entry) ?es \<noteq> None"
    using assms by (simp add: findIndex_None stamped_dayKey)
  then obtain i where fi: "findIndex (\<lambda>x. dayKey e x = dayKey e ?entry) ?es = Some i"
    by blast
  from findIndex_Some [OF fi]
  have i: "i < length ?es" and k: "dayKey e (?es ! i) = dayKey e entry0"
    by (simp_all add: stamped_dayKey)
  have u: "upsert e ?entry ?es = ?es[i := ?es ! i ++ ?entry]"
    using fi by (simp add: upsert_def)
  have "mset (getWeightEntries (snd (saveWeightEntry e now entry0 ls)))
        = mset (?es[i := ?es ! i ++ ?entry])"
    by (simp add: saveWeightEntry_entries mset_jsSort u)
  moreover have "length (getWeightEntries (snd (saveWeightEntry e now entry0 ls))) = length ?es"
    by (simp add: saveWeightEntry_entries length_jsSort u)
  ultimately show ?thesis
    using i k by blast
qed

lemma save_new_day:
  assumes "\<forall>x\<in>set (getWeightEntries ls). dayKey e x \<noteq> dayKey e entry0"
  shows "mset (getWeightEntries (snd (saveWeightEntry e now entry0 ls)))
         = add_mset (fst (saveWeightEntry e now entry0 ls)) (mset (getWeightEntries ls))"
proof -
  let ?entry = "fst (saveWeightEntry e now entry0 ls)"
  have "findIndex (\<lambda>x. dayKey e x = dayKey e ?entry) (getWeightEntries ls) = None"
    using assms by (simp add: findIndex_None stamped_dayKey)
  then have "upsert e ?entry (getWeightEntries ls) = getWeightEntries ls @ [?entry]"
    by (simp add: upsert_def)
  then show ?thesis
    by (simp add: saveWeightEntry_entries mset_jsSort)
qed

lemma save_twice_example:
  "map (\<lambda>x. (x ''date'', x ''weight''))
     (getWeightEntries (applyWrites e
        [SaveWeight n1 [''date'' \<mapsto> JStr ''2024-01-01'', ''weight'' \<mapsto> JNum 70],
         SaveWeight n2 [''date'' \<mapsto> JStr ''2024-01-01'', ''weight'' \<mapsto> JNum (139 / 2)]]
        emptyStorage))
   = [(Some (JStr ''2024-01-01''), Some (JNum (139 / 2)))]"
  by (simp add: applyWrites_def saveWeightEntry_def Let_def getWeightEntries_def
      emptyStorage_def jsSort_def dateOf_def)

text \<open>
  Claim C1. After any sequence of saves (and deletes) from the empty store, no two
  stored weight entries have their date on the same local calendar day; the same holds
  from any store without such a pair. A save for a day that is already present keeps the
  length of the collection: the stored collection is the earlier one with the entry of
  that day replaced by \<open>{...existing, ...entry}\<close>, in which every property of the saved
  entry has the saved entry's value. A save for a new day adds the entry. The saved entry
  is the given one with \<open>id\<close> and \<open>createdAt\<close> set. After saving 70.0 and then 69.5
  for \<open>2024-01-01\<close>, whatever the time zone and the clock, the collection has one entry,
  of weight 69.5.
\<close>

theorem weight_one_per_day:
  "distinct (map (localDay e) (getWeightEntries (applyWrites e ws emptyStorage)))
   \<and> (distinct (map (localDay e) (getWeightEntries ls)) \<longrightarrow>
        distinct (map (localDay e) (getWeightEntries (applyWrites e ws ls))))
   \<and> ((\<exists>x\<in>set (getWeightEntries ls). localDay e x = localDay e entry0) \<longrightarrow>
        length (getWeightEntries (snd (saveWeightEntry e now entry0 ls)))
          = length (getWeightEntries ls)
        \<and> (\<exists>i<length (getWeightEntries ls).
              localDay e (getWeightEntries ls ! i) = localDay e entry0
              \<and> mset (getWeightEntries (snd (saveWeightEntry e now entry0 ls)))
                  = mset ((getWeightEntries ls)
                      [i := getWeightEntries ls ! i ++ fst (saveWeightEntry e now entry0 ls)])))
   \<and> ((\<forall>x\<in>set (getWeightEntries ls). localDay e x \<noteq> localDay e entry0) \<longrightarrow>
        mset (getWeightEntries (snd (saveWeightEntry e now entry0 ls)))
          = add_mset (fst (saveWeightEntry e now entry0 ls)) (mset (getWeightEntries ls)))
   \<and> (\<forall>k v. fst (saveWeightEntry e now entry0 ls) k = Some v \<longrightarrow>
        (old ++ fst (saveWeightEntry e now entry0 ls)) k = Some v)
   \<and> (\<forall>k. entry0 k \<noteq> None \<and> k \<noteq> ''id'' \<and> k \<noteq> ''createdAt'' \<longrightarrow>
        fst (saveWeightEntry e now entry0 ls) k = entry0 k)
   \<and> map (\<lambda>x. (x ''date'', x ''weight''))
        (getWeightEntries (applyWrites e
           [SaveWeight n1 [''date'' \<mapsto> JStr ''2024-01-01'', ''weight'' \<mapsto> JNum 70],
            SaveWeight n2 [''date'' \<mapsto> JStr ''2024-01-01'', ''weight'' \<mapsto> JNum (139 / 2)]]
           emptyStorage))
      = [(Some (JStr ''2024-01-01''), Some (JNum (139 / 2)))]"
proof -
  have e0: "distinct (map (dayKey e) (getWeightEntries emptyStorage))"
    by (simp add: getWeightEntries_def emptyStorage_def)
  have a: "distinct (map (localDay e) (getWeightEntries (applyWrites e ws emptyStorage)))"
    using applyWrites_keep_distinct [OF e0] by (simp only: distinct_dayKey_localDay)
  have b: "distinct (map (localDay e) (getWeightEntries ls)) \<longrightarrow>
        distinct (map (localDay e) (getWeightEntries (applyWrites e ws ls)))"
    using applyWrites_keep_distinct [of e ls ws] by (simp only: distinct_dayKey_localDay) simp
  have m: "\<forall>k v. fst (saveWeightEntry e now entry0 ls) k = Some v \<longrightarrow>
        (old ++ fst (saveWeightEntry e now entry0 ls)) k = Some v"
    by (simp add: map_add_def)
  have s: "\<forall>k. entry0 k \<noteq> None \<and> k \<noteq> ''id'' \<and> k \<noteq> ''createdAt'' \<longrightarrow>
        fst (saveWeightEntry e now entry0 ls) k = entry0 k"
    by (simp add: saveWeightEntry_def Let_def)
  from a b m s save_same_day [of ls e entry0 now, unfolded dayKey_eq_iff]
    save_new_day [of ls e entry0 now, unfolded dayKey_eq_iff]
    save_twice_example [of e n1 n2]
  show ?thesis by blast
qed

lemma weightStore_entries:
  "map (\<lambda>x. (x ''date'', x ''weight'')) (getWeightEntries weightStore)
   = [(Some (JStr ''2024-01-01''), Some (JNum 70)), (Some (JStr ''2024-01-02''), Some (JNum 71))]"
  by (simp add: weight_eval)

lemma weightStore_days:
  "map (localDay utcEnv) (getWeightEntries weightStore) = [Some 19723, Some 19724]"
  by (simp add: weight_eval localDay_def LocalTime_def Day_def msPerDay_def)

text \<open>
  A store with entries for 1 and 2 January (days 19723 and 19724): a save for 1 January
  finds the entry of that day, the collection keeps its two entries and its days stay
  distinct.
\<close>

theorem weight_one_per_day_witness:
  "map (\<lambda>x. (x ''date'', x ''weight'')) (getWeightEntries weightStore)
     = [(Some (JStr ''2024-01-01''), Some (JNum 70)), (Some (JStr ''2024-01-02''), Some (JNum 71))]
   \<and> map (localDay utcEnv) (getWeightEntries weightStore) = [Some 19723, Some 19724]
   \<and> localDay utcEnv [''date'' \<mapsto> JStr ''2024-01-01'', ''weight'' \<mapsto> JNum (139 / 2)] = Some 19723
   \<and> length (getWeightEntries (snd (saveWeightEntry utcEnv 1704200000000
        [''date'' \<mapsto> JStr ''2024-01-01'', ''weight'' \<mapsto> JNum (139 / 2)] weightStore))) = 2
   \<and> distinct (map (localDay utcEnv) (getWeightEntries (applyWrites utcEnv
        [SaveWeight 1704200000000 [''date'' \<mapsto> JStr ''2024-01-01'', ''weight'' \<mapsto> JNum (139 / 2)]]
        weightStore)))"
proof -
  let ?entry = "[''date'' \<mapsto> JStr ''2024-01-01'', ''weight'' \<mapsto> JNum (139 / 2)]"
  let ?ws = "[SaveWeight 1704200000000 ?entry]"
  note th = weight_one_per_day [of utcEnv ?ws weightStore ?entry 1704200000000]
  have "length (map (localDay utcEnv) (getWeightEntries weightStore)) = 2"
    by (simp only: weightStore_days) simp
  then have l: "length (getWeightEntries weightStore) = 2"
    by simp
  have d: "distinct (map (localDay utcEnv) (getWeightEntries weightStore))"
    by (simp only: weightStore_days) simp
  have k: "localDay utcEnv ?entry = Some 19723"
    by (simp add: localDay_def dateOf_def utcEnv_def iso_2024_01_01 LocalTime_def Day_def
        msPerDay_def)
  then have "localDay utcEnv ?entry \<in> set (map (localDay utcEnv) (getWeightEntries weightStore))"
    by (simp only: weightStore_days) simp
  then have ex: "\<exists>x\<in>set (getWeightEntries weightStore). localDay utcEnv x = localDay utcEnv ?entry"
    by auto
  from th ex have "length (getWeightEntries (snd (saveWeightEntry utcEnv 1704200000000 ?entry weightStore)))
          = length (getWeightEntries weightStore)"
    by blast
  moreover from th d have "distinct (map (localDay utcEnv) (getWeightEntries (applyWrites utcEnv ?ws weightStore)))"
    by blast
  ultimately show ?thesis
    using weightStore_entries weightStore_days k l by simp
qed

section \<open>The weight collection stays in date order\<close>

lemma sortedByDate_Cons:
  "sortedByDate e (x # xs)
   = ((\<forall>y\<in>set xs. date_le (dateOf e x) (dateOf e y)) \<and> sortedByDate e xs)"
  by (simp add: sortedByDate_def)

lemma date_le_trans: "date_le a b \<Longrightarrow> date_le b c \<Longrightarrow> date_le a c"
  by (auto simp: date_le_def split: option.splits)

lemma sorted_insertBy:
  assumes "dateOf e x \<noteq> None" and "validDates e xs" and "sortedByDate e xs"
  shows "sortedByDate e (insertBy (\<lambda>a b. num_sub (dateOf e a) (dateOf e b)) x xs)"
  using assms(2,3)
proof (induction xs)
  case Nil
  then show ?case by (simp add: sortedByDate_def)
next
  case (Cons y ys)
  from assms(1) obtain tx where tx: "dateOf e x = Some tx" by blast
  from Cons.prems(1) obtain ty where ty: "dateOf e y = Some ty"
    by (auto simp: validDates_def)
  have vys: "validDates e ys" and sys: "sortedByDate e ys"
    and yle: "\<forall>z\<in>set ys. date_le (dateOf e y) (dateOf e z)"
    using Cons.prems by (simp_all add: validDates_def sortedByDate_Cons)
  show ?case
  proof (cases "ty < tx")
    case True
    then have "date_le (dateOf e y) (dateOf e x)"
      by (simp add: tx ty date_le_def)
    then show ?thesis
      using True yle Cons.IH [OF vys sys]
      by (simp add: tx ty num_sub_def positive_def sortedByDate_Cons set_insertBy)
  next
    case False
    then have xy: "date_le (dateOf e x) (dateOf e y)"
      by (simp add: tx ty date_le_def)
    then have "\<forall>z\<in>set ys. date_le (dateOf e x) (dateOf e z)"
      using yle date_le_trans by blast
    then show ?thesis
      using False xy yle sys
      by (simp add: tx ty num_sub_def positive_def sortedByDate_Cons)
  qed
qed

lemma validDates_jsSort: "validDates e (jsSort cmp xs) = validDates e xs"
  by (simp add: validDates_def list_all_iff set_jsSort)

lemma sorted_jsSort:
  "validDates e xs \<Longrightarrow> sortedByDate e (jsSort (\<lambda>a b. num_sub (dateOf e a) (dateOf e b)) xs)"
proof (induction xs)
  case Nil
  then show ?case by (simp add: jsSort_def sortedByDate_def)
next
  case (Cons x xs)
  let ?cmp = "\<lambda>a b. num_sub (dateOf e a) (dateOf e b)"
  from Cons.prems have x: "dateOf e x \<noteq> None" and xs: "validDates e xs"
    by (simp_all add: validDates_def)
  have "sortedByDate e (insertBy ?cmp x (jsSort ?cmp xs))"
    using x xs Cons.IH [OF xs] by (intro sorted_insertBy) (simp_all add: validDates_jsSort)
  then show ?case by (simp add: jsSort_def)
qed

lemma stamped_dateOf: "dateOf e (fst (saveWeightEntry e now entry0 ls)) = dateOf e entry0"
  by (simp add: dateOf_def stamped_date)

lemma validDates_upsert:
  assumes "validDates e entries" and "dateOf e entry \<noteq> None"
  shows "validDates e (upsert e entry entries)"
proof -
  have "entry ''date'' \<noteq> None"
    using assms(2) by (cases "entry ''date''") (simp_all add: dateOf_def)
  then have m: "\<And>old. dateOf e (old ++ entry) = dateOf e entry"
    by (auto simp: dateOf_def map_add_def split: option.splits)
  show ?thesis
  proof (cases "findIndex (\<lambda>x. dayKey e x = dayKey e entry) entries")
    case None
    then show ?thesis
      using assms by (simp add: upsert_def validDates_def)
  next
    case (Some i)
    have "set (entries[i := entries ! i ++ entry]) \<subseteq> insert (entries ! i ++ entry) (set entries)"
      by (rule set_update_subset_insert)
    then show ?thesis
      using Some assms m by (auto simp: upsert_def validDates_def list_all_iff)
  qed
qed

lemma save_ordered:
  assumes "weightsOrdered e ls" and "dateOf e entry0 \<noteq> None"
  shows "weightsOrdered e (snd (saveWeightEntry e now entry0 ls))"
proof -
  let ?u = "upsert e (fst (saveWeightEntry e now entry0 ls)) (getWeightEntries ls)"
  have "validDates e ?u"
    using assms by (intro validDates_upsert) (simp_all add: weightsOrdered_def stamped_dateOf)
  then show ?thesis
    by (simp add: weightsOrdered_def saveWeightEntry_entries validDates_jsSort sorted_jsSort)
qed

lemma delete_ordered:
  assumes "weightsOrdered e ls"
  shows "weightsOrdered e (snd (deleteWeightEntry id' ls))"
proof -
  have "getWeightEntries (snd (deleteWeightEntry id' ls))
        = filter (\<lambda>x. x ''id'' \<noteq> Some id') (getWeightEntries ls)"
    by (simp add: deleteWeightEntry_def Let_def getWeightEntries_def)
  then show ?thesis
    using assms
    by (simp add: weightsOrdered_def validDates_def list_all_iff sortedByDate_def sorted_wrt_filter)
qed

lemma applyWrite_ordered:
  "weightsOrdered e ls \<Longrightarrow> validWrite e w \<Longrightarrow> weightsOrdered e (applyWrite e ls w)"
  by (cases w) (simp_all add: save_ordered delete_ordered)

lemma applyWrites_ordered:
  "weightsOrdered e ls \<Longrightarrow> list_all (validWrite e) ws \<Longrightarrow> weightsOrdered e (applyWrites e ws ls)"
  unfolding applyWrites_def
  by (induction ws arbitrary: ls) (simp_all add: applyWrite_ordered)

lemma sorted_last_latest:
  assumes "validDates e xs" and "sortedByDate e xs" and "x \<in> set xs"
  shows "date_le (dateOf e x) (dateOf e (last xs))"
  using assms
proof (induction xs)
  case Nil
  then show ?case by simp
next
  case (Cons y ys)
  show ?case
  proof (cases "ys = []")
    case True
    with Cons.prems show ?thesis
      by (auto simp: validDates_def date_le_def)
  next
    case False
    then have l: "last (y # ys) = last ys" and m: "last ys \<in> set ys"
      by simp_all
    show ?thesis
    proof (cases "x = y")
      case True
      from Cons.prems(2) m have "date_le (dateOf e y) (dateOf e (last ys))"
        by (simp add: sortedByDate_Cons)
      then show ?thesis
        by (simp only: l True)
    next
      case False
      with Cons.prems have "x \<in> set ys" "validDates e ys" "sortedByDate e ys"
        by (simp_all add: validDates_def sortedByDate_Cons)
      then have "date_le (dateOf e x) (dateOf e (last ys))"
        by (rule Cons.IH [rotated 2])
      then show ?thesis
        by (simp only: l)
    qed
  qed
qed

lemma getLatestWeight_last:
  "getLatestWeight ls
   = (if getWeightEntries ls = [] then None else Some (last (getWeightEntries ls)))"
  by (simp add: getLatestWeight_def Let_def last_conv_nth)

text \<open>
  Claim C2. From a store whose weight collection is in date order (the empty store is),
  after any sequence of saves and deletes of weight entries (the date of a weight entry
  is a valid date), the stored collection is non-decreasing by date, \<open>getLatestWeight\<close>
  is \<open>null\<close> when it is empty and its last element otherwise, and no entry has a later
  date than that last element.
\<close>

theorem weights_sorted_after_writes:
  assumes "validDates e (getWeightEntries ls)" and "sortedByDate e (getWeightEntries ls)"
    and "list_all (validWrite e) ws"
  shows "sortedByDate e (getWeightEntries (applyWrites e ws ls))
         \<and> (getWeightEntries (applyWrites e ws ls) = [] \<longrightarrow>
              getLatestWeight (applyWrites e ws ls) = None)
         \<and> (getWeightEntries (applyWrites e ws ls) \<noteq> [] \<longrightarrow>
              getLatestWeight (applyWrites e ws ls)
                = Some (last (getWeightEntries (applyWrites e ws ls)))
              \<and> (\<forall>x\<in>set (getWeightEntries (applyWrites e ws ls)).
                    date_le (dateOf e x)
                      (dateOf e (last (getWeightEntries (applyWrites e ws ls))))))"
proof -
  let ?ls = "applyWrites e ws ls"
  have "weightsOrdered e ls"
    using assms(1,2) by (simp add: weightsOrdered_def)
  then have "weightsOrdered e ?ls"
    using assms(3) by (rule applyWrites_ordered)
  then have v: "validDates e (getWeightEntries ?ls)" and s: "sortedByDate e (getWeightEntries ?ls)"
    by (simp_all add: weightsOrdered_def)
  have "\<forall>x\<in>set (getWeightEntries ?ls).
          date_le (dateOf e x) (dateOf e (last (getWeightEntries ?ls)))"
    using sorted_last_latest [OF v s] by blast
  then show ?thesis
    using s by (simp add: getLatestWeight_last)
qed

text \<open>
  Saving 2 January and then 1 January: the collection is stored in date order and the
  latest weight is the one of 2 January.
\<close>

theorem weights_sorted_after_writes_witness:
  "validDates utcEnv (getWeightEntries emptyStorage)
   \<and> sortedByDate utcEnv (getWeightEntries emptyStorage)
   \<and> list_all (validWrite utcEnv)
        [SaveWeight 1704186000000 [''date'' \<mapsto> JStr ''2024-01-02'', ''weight'' \<mapsto> JNum 71],
         SaveWeight 1704190000000 [''date'' \<mapsto> JStr ''2024-01-01'', ''weight'' \<mapsto> JNum 70]]
   \<and> sortedByDate utcEnv (getWeightEntries weightStore)
   \<and> map (\<lambda>x. x ''date'') (getWeightEntries weightStore)
       = [Some (JStr ''2024-01-01''), Some (JStr ''2024-01-02'')]
   \<and> map_option (\<lambda>x. x ''weight'') (getLatestWeight weightStore) = Some (Some (JNum 71))"
proof -
  let ?ws = "[SaveWeight 1704186000000 [''date'' \<mapsto> JStr ''2024-01-02'', ''weight'' \<mapsto> JNum 71],
              SaveWeight 1704190000000 [''date'' \<mapsto> JStr ''2024-01-01'', ''weight'' \<mapsto> JNum 70]]"
  have v: "validDates utcEnv (getWeightEntries emptyStorage)"
    by (simp add: validDates_def getWeightEntries_def emptyStorage_def)
  have s: "sortedByDate utcEnv (getWeightEntries emptyStorage)"
    by (simp add: sortedByDate_def getWeightEntries_def emptyStorage_def)
  have w: "list_all (validWrite utcEnv) ?ws"
    by (simp add: dateOf_def utcEnv_def iso_2024_01_01 iso_2024_01_02)
  have d: "map (\<lambda>x. x ''date'') (getWeightEntries weightStore)
       = [Some (JStr ''2024-01-01''), Some (JStr ''2024-01-02'')]"
    by (simp add: weight_eval)
  have l: "map_option (\<lambda>x. x ''weight'') (getLatestWeight weightStore) = Some (Some (JNum 71))"
    by (simp add: getLatestWeight_def weight_eval)
  from weights_sorted_after_writes [OF v s w]
  have "sortedByDate utcEnv (getWeightEntries weightStore)"
    by (simp add: weightStore_def)
  then show ?thesis
    using v s w d l by simp
qed

end
